theory Spec2Isabelle
  imports Main "HOL-Library.Log_Nat"
begin

section \<open>JavaScript numbers\<close>

text \<open>
  The coordinates of \<^verbatim>\<open>src/navigation/recast.ts\<close> are JavaScript numbers: IEEE 754
  binary64 values. A finite value is kept as the rational it denotes; the two zeros are
  identified, since the program never divides and compares zeros only with
  \<^verbatim>\<open>===\<close>, \<^verbatim>\<open>!==\<close> and \<^verbatim>\<open><\<close>, which do not tell them apart.
  Every arithmetic result is rounded to the nearest binary64 value, ties to even, with
  overflow to an infinity and gradual underflow.
\<close>

datatype jsnum = NaN | PosInf | NegInf | Fin rat

text \<open>\<open>ilog2 r\<close> is the binary exponent of a positive rational: \<open>2^e \<le> r < 2^(e+1)\<close>.\<close>

definition ilog2 :: "rat \<Rightarrow> int" where
  "ilog2 r = (let (p, q) = quotient_of r; d = bitlen p - bitlen q
              in if 2 powi d \<le> r then d else d - 1)"

definition roundHalfEven :: "rat \<Rightarrow> int" where
  "roundHalfEven r = (let f = \<lfloor>r\<rfloor>; d = r - of_int f
     in if d < 1 / 2 then f else if 1 / 2 < d then f + 1
        else if even f then f else f + 1)"

text \<open>
  Rounding of a positive rational to 53 significant bits; below \<open>2^-1022\<close> the spacing
  stays \<open>2^-1074\<close> (subnormal numbers).
\<close>

definition roundPos :: "rat \<Rightarrow> rat" where
  "roundPos r = (let q = 2 powi (max (ilog2 r) (- 1022) - 52)
                 in of_int (roundHalfEven (r / q)) * q)"

definition js_round :: "rat \<Rightarrow> jsnum" where
  "js_round r = (if r = 0 then Fin 0
     else let m = roundPos \<bar>r\<bar>
          in if 2 powi 1024 \<le> m then (if 0 < r then PosInf else NegInf)
             else Fin (if 0 < r then m else - m))"

text \<open>The operators the program uses: \<^verbatim>\<open>a - b\<close>, \<^verbatim>\<open>a * b\<close>, \<^verbatim>\<open>Math.abs\<close>,
  \<^verbatim>\<open>Math.sign\<close>, \<^verbatim>\<open>a < b\<close>, \<^verbatim>\<open>a === b\<close> and \<^verbatim>\<open>a !== b\<close>.\<close>

fun js_sub :: "jsnum \<Rightarrow> jsnum \<Rightarrow> jsnum" where
  "js_sub NaN _ = NaN"
| "js_sub _ NaN = NaN"
| "js_sub PosInf PosInf = NaN"
| "js_sub NegInf NegInf = NaN"
| "js_sub PosInf _ = PosInf"
| "js_sub NegInf _ = NegInf"
| "js_sub (Fin _) PosInf = NegInf"
| "js_sub (Fin _) NegInf = PosInf"
| "js_sub (Fin a) (Fin b) = js_round (a - b)"

fun js_mul :: "jsnum \<Rightarrow> jsnum \<Rightarrow> jsnum" where
  "js_mul NaN _ = NaN"
| "js_mul _ NaN = NaN"
| "js_mul (Fin a) (Fin b) = js_round (a * b)"
| "js_mul (Fin a) PosInf = (if a = 0 then NaN else if 0 < a then PosInf else NegInf)"
| "js_mul (Fin a) NegInf = (if a = 0 then NaN else if 0 < a then NegInf else PosInf)"
| "js_mul PosInf (Fin b) = (if b = 0 then NaN else if 0 < b then PosInf else NegInf)"
| "js_mul NegInf (Fin b) = (if b = 0 then NaN else if 0 < b then NegInf else PosInf)"
| "js_mul PosInf PosInf = PosInf"
| "js_mul PosInf NegInf = NegInf"
| "js_mul NegInf PosInf = NegInf"
| "js_mul NegInf NegInf = PosInf"

fun js_abs :: "jsnum \<Rightarrow> jsnum" where
  "js_abs NaN = NaN"
| "js_abs PosInf = PosInf"
| "js_abs NegInf = PosInf"
| "js_abs (Fin a) = Fin \<bar>a\<bar>"

fun js_sign :: "jsnum \<Rightarrow> jsnum" where
  "js_sign NaN = NaN"
| "js_sign PosInf = Fin 1"
| "js_sign NegInf = Fin (- 1)"
| "js_sign (Fin a) = Fin (sgn a)"

fun js_lt :: "jsnum \<Rightarrow> jsnum \<Rightarrow> bool" where
  "js_lt NaN _ = False"
| "js_lt _ NaN = False"
| "js_lt PosInf _ = False"
| "js_lt NegInf NegInf = False"
| "js_lt NegInf _ = True"
| "js_lt (Fin _) PosInf = True"
| "js_lt (Fin _) NegInf = False"
| "js_lt (Fin a) (Fin b) = (a < b)"

text \<open>\<^verbatim>\<open>===\<close> on numbers: \<^verbatim>\<open>NaN\<close> equals nothing, itself included.\<close>

definition js_eq :: "jsnum \<Rightarrow> jsnum \<Rightarrow> bool" where
  "js_eq a b \<longleftrightarrow> a \<noteq> NaN \<and> b \<noteq> NaN \<and> a = b"

definition js_neq :: "jsnum \<Rightarrow> jsnum \<Rightarrow> bool" where
  "js_neq a b \<longleftrightarrow> \<not> js_eq a b"

definition is_finite :: "jsnum \<Rightarrow> bool" where
  "is_finite a = (case a of Fin _ \<Rightarrow> True | _ \<Rightarrow> False)"

section \<open>The program\<close>

subsection \<open>Points and polygons\<close>

text \<open>\<^verbatim>\<open>type Point = { x: number; y: number }; type Polygon = Point[]\<close>\<close>

record Point =
  x :: jsnum
  y :: jsnum

type_synonym Polygon = "Point list"

subsection \<open>pointsEqual, getEdges, shareEdge\<close>

text \<open>The literal \<^verbatim>\<open>1e-6\<close> denotes the binary64 value nearest to \<open>10^-6\<close>.\<close>

definition tolerance :: jsnum where
  "tolerance = js_round (1 / 1000000)"

definition pointsEqual :: "Point \<Rightarrow> Point \<Rightarrow> bool" where
  "pointsEqual a b \<longleftrightarrow>
     js_lt (js_abs (js_sub (x a) (x b))) tolerance \<and>
     js_lt (js_abs (js_sub (y a) (y b))) tolerance"

definition getEdges :: "Polygon \<Rightarrow> (Point \<times> Point) list" where
  "getEdges poly = map (\<lambda>i. (poly ! i, poly ! ((i + 1) mod length poly))) [0..<length poly]"

text \<open>The test that \<^verbatim>\<open>shareEdge\<close> and \<^verbatim>\<open>findSharedEdge\<close> both write inline:
  the two edges have the same endpoints, in the same or in the opposite order.\<close>

definition edgesMatch :: "Point \<times> Point \<Rightarrow> Point \<times> Point \<Rightarrow> bool" where
  "edgesMatch e1 e2 \<longleftrightarrow>
     (pointsEqual (fst e1) (fst e2) \<and> pointsEqual (snd e1) (snd e2)) \<or>
     (pointsEqual (fst e1) (snd e2) \<and> pointsEqual (snd e1) (fst e2))"

definition shareEdge :: "Polygon \<Rightarrow> Polygon \<Rightarrow> bool" where
  "shareEdge tri1 tri2 =
     list_ex (\<lambda>e1. list_ex (\<lambda>e2. edgesMatch e1 e2) (getEdges tri2)) (getEdges tri1)"

subsection \<open>isConvex\<close>

text \<open>The cross product computed in the loop body at index \<open>i\<close>.\<close>

definition cross :: "Polygon \<Rightarrow> nat \<Rightarrow> jsnum" where
  "cross poly i =
     (let n = length poly;
          a = poly ! i;
          b = poly ! ((i + 1) mod n);
          c = poly ! ((i + 2) mod n)
      in js_sub (js_mul (js_sub (x b) (x a)) (js_sub (y c) (y b)))
                (js_mul (js_sub (y b) (y a)) (js_sub (x c) (x b))))"

text \<open>The loop of \<^verbatim>\<open>isConvex\<close> over the remaining indices, with the variable
  \<^verbatim>\<open>sign\<close> as state; \<open>False\<close> is the early \<^verbatim>\<open>return false\<close>.\<close>

fun convexLoop :: "Polygon \<Rightarrow> jsnum \<Rightarrow> nat list \<Rightarrow> bool" where
  "convexLoop poly sign [] = True"
| "convexLoop poly sign (i # is) =
     (if js_neq (cross poly i) (Fin 0) then
        (if js_eq sign (Fin 0) then convexLoop poly (js_sign (cross poly i)) is
         else if js_neq (js_sign (cross poly i)) sign then False
         else convexLoop poly sign is)
      else convexLoop poly sign is)"

definition isConvex :: "Polygon \<Rightarrow> bool" where
  "isConvex poly = (let n = length poly in
     if n < 3 then False else convexLoop poly (Fin 0) [0..<n])"

subsection \<open>validateInput\<close>

text \<open>The three \<^verbatim>\<open>throw new Error(...)\<close> of \<^verbatim>\<open>validateInput\<close>, with the obstacle number
  \<^verbatim>\<open>i + 1\<close> that the message carries, and a failure of the external triangulator.\<close>

datatype error =
    BoundingBoxNot4Points
  | ObstacleTooFewPoints nat
  | ObstacleNotConvex nat
  | TriangulationFailure

fun checkObstacles :: "nat \<Rightarrow> Polygon list \<Rightarrow> error + unit" where
  "checkObstacles i [] = Inr ()"
| "checkObstacles i (obstacle # rest) =
     (if length obstacle < 3 then Inl (ObstacleTooFewPoints (i + 1))
      else if \<not> isConvex obstacle then Inl (ObstacleNotConvex (i + 1))
      else checkObstacles (i + 1) rest)"

definition validateInput :: "Polygon \<Rightarrow> Polygon list \<Rightarrow> error + unit" where
  "validateInput boundingBox obstacles =
     (if length boundingBox \<noteq> 4 then Inl BoundingBoxNot4Points
      else checkObstacles 0 obstacles)"

subsection \<open>prepareEarcutInput\<close>

record EarcutInput =
  vertices :: "jsnum list"
  holes :: "nat list"

text \<open>\<^verbatim>\<open>poly.forEach(p => { vertices.push(p.x, p.y) })\<close>\<close>

fun pushPoints :: "jsnum list \<Rightarrow> Polygon \<Rightarrow> jsnum list" where
  "pushPoints vs [] = vs"
| "pushPoints vs (p # ps) = pushPoints (vs @ [x p, y p]) ps"

text \<open>The loop over the obstacles; the state is \<^verbatim>\<open>vertices\<close>, \<^verbatim>\<open>holes\<close> and
  \<^verbatim>\<open>vertexOffset\<close>.\<close>

fun addObstacles :: "Polygon list \<Rightarrow> jsnum list \<times> nat list \<times> nat \<Rightarrow> jsnum list \<times> nat list \<times> nat" where
  "addObstacles [] st = st"
| "addObstacles (obstacle # rest) (vs, hs, vertexOffset) =
     addObstacles rest (pushPoints vs obstacle, hs @ [vertexOffset], vertexOffset + length obstacle)"

definition prepareEarcutInput :: "Polygon \<Rightarrow> Polygon list \<Rightarrow> EarcutInput" where
  "prepareEarcutInput boundingBox obstacles =
     (let (vs, hs, _) = addObstacles obstacles (pushPoints [] boundingBox, [], length boundingBox)
      in \<lparr>vertices = vs, holes = hs\<rparr>)"

subsection \<open>triangulateWithEarcut\<close>

text \<open>
  \<^verbatim>\<open>earcut\<close> is an external library: it is a parameter, a function from the vertex
  buffer, the hole indices and the dimension to the list of vertex indices, or \<open>None\<close>
  when it throws. A read past the end of an array gives \<^verbatim>\<open>undefined\<close>, which every
  arithmetic operation of this program converts to \<^verbatim>\<open>NaN\<close>; it is modelled as \<open>NaN\<close>.
\<close>

type_synonym earcut_fn = "jsnum list \<Rightarrow> nat list \<Rightarrow> nat \<Rightarrow> nat list option"

definition vertexAt :: "jsnum list \<Rightarrow> nat \<Rightarrow> jsnum" where
  "vertexAt vs k = (if k < length vs then vs ! k else NaN)"

text \<open>The point built for one entry of \<^verbatim>\<open>indices\<close>; \<open>None\<close> is an entry past the end.\<close>

definition indexedPoint :: "jsnum list \<Rightarrow> nat option \<Rightarrow> Point" where
  "indexedPoint vs entry = (case entry of
       None \<Rightarrow> \<lparr>x = NaN, y = NaN\<rparr>
     | Some k \<Rightarrow> \<lparr>x = vertexAt vs (k * 2), y = vertexAt vs (k * 2 + 1)\<rparr>)"

fun indexTriples :: "jsnum list \<Rightarrow> nat list \<Rightarrow> Polygon list" where
  "indexTriples vs [] = []"
| "indexTriples vs [a] =
     [[indexedPoint vs (Some a), indexedPoint vs None, indexedPoint vs None]]"
| "indexTriples vs [a, b] =
     [[indexedPoint vs (Some a), indexedPoint vs (Some b), indexedPoint vs None]]"
| "indexTriples vs (a # b # c # rest) =
     [indexedPoint vs (Some a), indexedPoint vs (Some b), indexedPoint vs (Some c)]
       # indexTriples vs rest"

definition triangulateWithEarcut :: "earcut_fn \<Rightarrow> jsnum list \<Rightarrow> nat list \<Rightarrow> Polygon list option" where
  "triangulateWithEarcut earcut vs hs =
     (case earcut vs hs 2 of None \<Rightarrow> None | Some indices \<Rightarrow> Some (indexTriples vs indices))"

subsection \<open>findSharedEdge and mergePolygons\<close>

text \<open>The first edge of \<open>poly1\<close>, in order, that matches some edge of \<open>poly2\<close>.\<close>

definition findSharedEdge :: "Polygon \<Rightarrow> Polygon \<Rightarrow> (Point \<times> Point) option" where
  "findSharedEdge poly1 poly2 =
     find (\<lambda>edge. list_ex (\<lambda>edge2. edgesMatch edge edge2) (getEdges poly2)) (getEdges poly1)"

text \<open>\<^verbatim>\<open>Array.prototype.findIndex\<close>: the first position that satisfies the test, or \<open>-1\<close>.\<close>

fun findIndex :: "('a \<Rightarrow> bool) \<Rightarrow> 'a list \<Rightarrow> int" where
  "findIndex P [] = - 1"
| "findIndex P (p # ps) =
     (if P p then 0 else (let r = findIndex P ps in if r < 0 then - 1 else r + 1))"

text \<open>The inner \<^verbatim>\<open>for\<close> loop of \<^verbatim>\<open>mergePolygons\<close>: \<open>k\<close> iterations, each pushing
  \<^verbatim>\<open>poly2[index]\<close> and advancing \<^verbatim>\<open>index\<close> cyclically. It returns the points pushed
  and the final \<^verbatim>\<open>index\<close>.\<close>

fun spliceFrom :: "Polygon \<Rightarrow> nat \<Rightarrow> nat \<Rightarrow> Polygon \<times> nat" where
  "spliceFrom poly2 index 0 = ([], index)"
| "spliceFrom poly2 index (Suc k) =
     (let (ps, index') = spliceFrom poly2 ((index + 1) mod length poly2) k
      in (poly2 ! index # ps, index'))"

text \<open>The outer loop over \<open>poly1\<close>; \<^verbatim>\<open>index\<close> is kept from one match to the next.\<close>

fun mergeLoop :: "Point \<Rightarrow> Polygon \<Rightarrow> Polygon \<Rightarrow> nat \<Rightarrow> Polygon" where
  "mergeLoop edgeStart poly2 [] index = []"
| "mergeLoop edgeStart poly2 (p # ps) index =
     (if \<not> pointsEqual p edgeStart then p # mergeLoop edgeStart poly2 ps index
      else (let (ins, index') = spliceFrom poly2 index (length poly2 - 2)
            in p # ins @ mergeLoop edgeStart poly2 ps index'))"

text \<open>\<open>None\<close> is \<^verbatim>\<open>null\<close>. When a shared edge exists \<open>poly2\<close> is not empty, so the
  remainder by its length is defined.\<close>

definition mergePolygons :: "Polygon \<Rightarrow> Polygon \<Rightarrow> Polygon option" where
  "mergePolygons poly1 poly2 =
     (case findSharedEdge poly1 poly2 of
        None \<Rightarrow> None
      | Some sharedEdge \<Rightarrow>
          (let edgeStart = fst sharedEdge;
               index = findIndex (\<lambda>p. pointsEqual p edgeStart) poly2;
               index = nat ((index + 1) mod int (length poly2))
           in Some (mergeLoop edgeStart poly2 poly1 index)))"

subsection \<open>mergeTrianglesToConvexPolygons\<close>

text \<open>The inner loop over \<open>j\<close> for one \<open>i\<close>: the list pushed under key \<open>i\<close>.\<close>

definition neighborsOf :: "Polygon list \<Rightarrow> nat \<Rightarrow> nat list" where
  "neighborsOf triangles i =
     filter (\<lambda>j. \<not> (i = j \<or> \<not> shareEdge (triangles ! i) (triangles ! j)))
       [0..<length triangles]"

text \<open>The outer loop: \<^verbatim>\<open>adjacencyMap.set(i, ...)\<close> for every index in order.\<close>

definition adjacencyMap :: "Polygon list \<Rightarrow> nat \<rightharpoonup> nat list" where
  "adjacencyMap triangles =
     fold (\<lambda>i m. m(i \<mapsto> neighborsOf triangles i)) [0..<length triangles] Map.empty"

text \<open>The loop over the neighbours of one seed; the state is \<^verbatim>\<open>mergedPoly\<close> and
  \<^verbatim>\<open>visited\<close>.\<close>

fun mergeNeighbors :: "Polygon list \<Rightarrow> nat list \<Rightarrow> Polygon \<times> nat set \<Rightarrow> Polygon \<times> nat set" where
  "mergeNeighbors triangles [] st = st"
| "mergeNeighbors triangles (neighborIdx # rest) (mergedPoly, visited) =
     (if neighborIdx \<in> visited then mergeNeighbors triangles rest (mergedPoly, visited)
      else (case mergePolygons mergedPoly (triangles ! neighborIdx) of
              None \<Rightarrow> mergeNeighbors triangles rest (mergedPoly, visited)
            | Some candidate \<Rightarrow>
                if isConvex candidate
                then mergeNeighbors triangles rest (candidate, insert neighborIdx visited)
                else mergeNeighbors triangles rest (mergedPoly, visited)))"

text \<open>The loop over the seeds; the state is \<^verbatim>\<open>visited\<close> and \<^verbatim>\<open>result\<close>.\<close>

fun mergeSeeds :: "Polygon list \<Rightarrow> nat list \<Rightarrow> nat set \<times> Polygon list \<Rightarrow> Polygon list" where
  "mergeSeeds triangles [] (visited, result) = result"
| "mergeSeeds triangles (i # is) (visited, result) =
     (if i \<in> visited then mergeSeeds triangles is (visited, result)
      else (let neighbors = (case adjacencyMap triangles i of None \<Rightarrow> [] | Some ns \<Rightarrow> ns);
                (mergedPoly, visited') =
                   mergeNeighbors triangles neighbors (triangles ! i, insert i visited)
            in mergeSeeds triangles is (visited', result @ [mergedPoly])))"

definition mergeTrianglesToConvexPolygons :: "Polygon list \<Rightarrow> Polygon list" where
  "mergeTrianglesToConvexPolygons triangles =
     mergeSeeds triangles [0..<length triangles] ({}, [])"

subsection \<open>decomposeWalkableArea\<close>

definition decomposeWalkableArea :: "earcut_fn \<Rightarrow> Polygon \<Rightarrow> Polygon list \<Rightarrow> error + Polygon list" where
  "decomposeWalkableArea earcut boundingBox obstacles =
     (case validateInput boundingBox obstacles of
        Inl e \<Rightarrow> Inl e
      | Inr _ \<Rightarrow>
          (let inp = prepareEarcutInput boundingBox obstacles
           in case triangulateWithEarcut earcut (vertices inp) (holes inp) of
                None \<Rightarrow> Inl TriangulationFailure
              | Some triangles \<Rightarrow> Inr (mergeTrianglesToConvexPolygons triangles)))"

section \<open>Definitions that follow the specification\<close>

text \<open>
  The convexity test as the specification words it: fewer than 3 points is non-convex;
  otherwise take the cross product at every vertex, drop the zero ones, and compare the
  sign of every later one with the sign of the first.
\<close>

definition isConvex_spec :: "Polygon \<Rightarrow> bool" where
  "isConvex_spec poly \<longleftrightarrow>
     \<not> length poly < 3 \<and>
     (case filter (\<lambda>c. js_neq c (Fin 0)) (map (cross poly) [0..<length poly]) of
        [] \<Rightarrow> True
      | c # cs \<Rightarrow> list_all (\<lambda>d. \<not> js_neq (js_sign d) (js_sign c)) cs)"

text \<open>
  The fusion as the specification words it: polygon 1 up to and including the shared
  edge's first endpoint, then the vertices of polygon 2 other than the two endpoints of
  the shared edge, in polygon 2's cyclic order from just past that endpoint, then the
  rest of polygon 1.
\<close>

definition mergePolygons_spec :: "Polygon \<Rightarrow> Polygon \<Rightarrow> Polygon option" where
  "mergePolygons_spec poly1 poly2 =
     (case findSharedEdge poly1 poly2 of
        None \<Rightarrow> None
      | Some (a, b) \<Rightarrow>
          (let i = nat (findIndex (\<lambda>p. pointsEqual p a) poly1);
               j = nat (findIndex (\<lambda>p. pointsEqual p a) poly2);
               remaining = filter (\<lambda>q. \<not> pointsEqual q a \<and> \<not> pointsEqual q b)
                             (rotate (j + 1) poly2)
           in Some (take (Suc i) poly1 @ remaining @ drop (Suc i) poly1)))"

text \<open>
  The exact value of a finite coordinate; the geometry of the specification (areas,
  sides of a line, regions) is read in exact rational arithmetic over these values.
\<close>

definition ratOf :: "jsnum \<Rightarrow> rat" where
  "ratOf v = (case v of Fin r \<Rightarrow> r | _ \<Rightarrow> 0)"

text \<open>The cross product at index \<open>i\<close> in exact arithmetic, without any rounding.\<close>

definition exactCross :: "Polygon \<Rightarrow> nat \<Rightarrow> rat" where
  "exactCross poly i =
     (let n = length poly;
          a = poly ! i;
          b = poly ! ((i + 1) mod n);
          c = poly ! ((i + 2) mod n)
      in (ratOf (x b) - ratOf (x a)) * (ratOf (y c) - ratOf (y b)) -
         (ratOf (y b) - ratOf (y a)) * (ratOf (x c) - ratOf (x b)))"

text \<open>\<open>orient a b c\<close> is positive when \<open>c\<close> lies on the left of the line from \<open>a\<close> to
  \<open>b\<close>, negative on the right, zero on the line.\<close>

definition orient :: "Point \<Rightarrow> Point \<Rightarrow> Point \<Rightarrow> rat" where
  "orient a b c =
     (ratOf (x b) - ratOf (x a)) * (ratOf (y c) - ratOf (y a)) -
     (ratOf (y b) - ratOf (y a)) * (ratOf (x c) - ratOf (x a))"

text \<open>Twice the signed area of a polygon (the shoelace formula); its sign is the
  winding.\<close>

definition area2 :: "Polygon \<Rightarrow> rat" where
  "area2 poly =
     sum_list (map (\<lambda>e. ratOf (x (fst e)) * ratOf (y (snd e)) - ratOf (x (snd e)) * ratOf (y (fst e)))
                (getEdges poly))"

text \<open>A point of a convex polygon of positive winding lies on the left of every edge, or
  on it; a point of its interior lies strictly on the left of every edge.\<close>

definition insideConvex :: "Polygon \<Rightarrow> Point \<Rightarrow> bool" where
  "insideConvex poly p = list_all (\<lambda>e. 0 \<le> orient (fst e) (snd e) p) (getEdges poly)"

definition strictlyInside :: "Polygon \<Rightarrow> Point \<Rightarrow> bool" where
  "strictlyInside poly p = list_all (\<lambda>e. 0 < orient (fst e) (snd e) p) (getEdges poly)"

text \<open>A point is outside the convex hull of a polygon's vertices when one edge has every
  vertex on its left or on it, and the point strictly on its right. This needs no
  assumption on the polygon: whatever region a list of vertices describes lies in their
  convex hull.\<close>

definition outsideHull :: "Polygon \<Rightarrow> Point \<Rightarrow> bool" where
  "outsideHull poly p =
     list_ex (\<lambda>e. list_all (\<lambda>q. 0 \<le> orient (fst e) (snd e) q) poly \<and> orient (fst e) (snd e) p < 0)
       (getEdges poly)"

text \<open>Two polygons are apart when the line through an edge of one of them has one
  polygon on its left and the other on its right (points on the line allowed): their
  interiors are then disjoint.\<close>

definition separates :: "Point \<times> Point \<Rightarrow> Polygon \<Rightarrow> Polygon \<Rightarrow> bool" where
  "separates e P Q \<longleftrightarrow>
     list_all (\<lambda>p. 0 \<le> orient (fst e) (snd e) p) P \<and> list_all (\<lambda>q. orient (fst e) (snd e) q \<le> 0) Q"

definition apart :: "Polygon \<Rightarrow> Polygon \<Rightarrow> bool" where
  "apart P Q = list_ex (\<lambda>e. separates e P Q \<or> separates e Q P) (getEdges P @ getEdges Q)"

fun pairwiseApart :: "Polygon list \<Rightarrow> bool" where
  "pairwiseApart [] = True"
| "pairwiseApart (P # Ps) = (list_all (apart P) Ps \<and> pairwiseApart Ps)"

text \<open>
  The pieces tile the box minus the obstacles, with no gap and no overlap: every piece
  has positive area, lies in the box and is apart from every obstacle, the pieces are
  apart from one another, and their areas add up to the area of the box minus the areas
  of the obstacles. This is the contract of the triangulation engine for its triangles,
  and what the specification asks of the returned polygons. It is meant for a convex box
  of positive winding and for convex obstacles inside it that are apart from one another.
\<close>

definition tilesRegion :: "Polygon \<Rightarrow> Polygon list \<Rightarrow> Polygon list \<Rightarrow> bool" where
  "tilesRegion box obstacles pieces \<longleftrightarrow>
     list_all (\<lambda>P. 0 < area2 P \<and> list_all (insideConvex box) P \<and> list_all (apart P) obstacles) pieces \<and>
     pairwiseApart pieces \<and>
     sum_list (map area2 pieces) = area2 box - sum_list (map area2 obstacles)"

section \<open>Example inputs\<close>

text \<open>A point with integer coordinates.\<close>

definition pt :: "int \<Rightarrow> int \<Rightarrow> Point" where
  "pt a b = \<lparr>x = Fin (of_int a), y = Fin (of_int b)\<rparr>"

text \<open>A finite value is a binary64 value when rounding leaves it unchanged.\<close>

definition binary64 :: "jsnum \<Rightarrow> bool" where
  "binary64 v = (case v of Fin r \<Rightarrow> js_round r = Fin r | _ \<Rightarrow> True)"

definition binary64Points :: "Polygon \<Rightarrow> bool" where
  "binary64Points poly = list_all (\<lambda>p. binary64 (x p) \<and> binary64 (y p)) poly"

text \<open>Three points on the line \<open>y = 3x\<close>: \<open>(-1, -3)\<close>, \<open>(0, 0)\<close> and
  \<open>(2^-53, 3 * 2^-53)\<close>.\<close>

definition collinearTriangle :: Polygon where
  "collinearTriangle =
     [\<lparr>x = Fin (- 1), y = Fin (- 3)\<rparr>, \<lparr>x = Fin 0, y = Fin 0\<rparr>,
      \<lparr>x = Fin (1 / 2 ^ 53), y = Fin (3 / 2 ^ 53)\<rparr>]"

text \<open>A thin triangle of positive area: the third point is moved down by \<open>2^-104\<close>.\<close>

definition sliverTriangle :: Polygon where
  "sliverTriangle =
     [\<lparr>x = Fin (- 1), y = Fin (- 3)\<rparr>, \<lparr>x = Fin 0, y = Fin 0\<rparr>,
      \<lparr>x = Fin (1 / 2 ^ 53), y = Fin (3 / 2 ^ 53 - 1 / 2 ^ 104)\<rparr>]"

text \<open>A point on the grid of step \<open>2^-20\<close>, which is a little less than the tolerance
  \<^verbatim>\<open>1e-6\<close>: two grid points are equal for \<^verbatim>\<open>pointsEqual\<close> iff they are at most one
  step apart in each coordinate.\<close>

definition gridPoint :: "int \<Rightarrow> int \<Rightarrow> Point" where
  "gridPoint a b = \<lparr>x = Fin (of_int a / 2 ^ 20), y = Fin (of_int b / 2 ^ 20)\<rparr>"

text \<open>The point \<open>p\<close> moved by \<open>da\<close> and \<open>db\<close> steps of \<open>2^-20\<close>.\<close>

definition nudge :: "Point \<Rightarrow> int \<Rightarrow> int \<Rightarrow> Point" where
  "nudge p da db =
     \<lparr>x = Fin (ratOf (x p) + of_int da / 2 ^ 20), y = Fin (ratOf (y p) + of_int db / 2 ^ 20)\<rparr>"

text \<open>
  A square of side 4, listed as the source asks (top left, top right, bottom right,
  bottom left, the \<open>y\<close> axis pointing down), and one obstacle of the same winding: the
  triangle \<open>(2, 1)\<close>, \<open>(2 + 2^-20, 1)\<close>, \<open>(2, 1 + 2^-20)\<close>. The vertices are numbered
  0 to 3 (the box) and 4 to 6 (the obstacle).
\<close>

definition outerBox :: Polygon where
  "outerBox = [pt 0 0, pt 4 0, pt 4 4, pt 0 4]"

definition tinyObstacle :: Polygon where
  "tinyObstacle = [pt 2 1, nudge (pt 2 1) 1 0, nudge (pt 2 1) 0 1]"

text \<open>A triangulation of the square minus the obstacle, as the list of vertex indices
  that the triangulation engine returns, and the seven triangles it denotes.\<close>

definition tinyTiling :: "nat list" where
  "tinyTiling = [1, 2, 3,  4, 0, 1,  4, 3, 0,  1, 3, 5,  6, 3, 4,  5, 4, 1,  3, 6, 5]"

definition tinyTriangles :: "Polygon list" where
  "tinyTriangles =
    [[pt 4 0, pt 4 4, pt 0 4],
     [pt 2 1, pt 0 0, pt 4 0],
     [pt 2 1, pt 0 4, pt 0 0],
     [pt 4 0, pt 0 4, nudge (pt 2 1) 1 0],
     [nudge (pt 2 1) 0 1, pt 0 4, pt 2 1],
     [nudge (pt 2 1) 1 0, pt 2 1, pt 4 0],
     [pt 0 4, nudge (pt 2 1) 0 1, nudge (pt 2 1) 1 0]]"

text \<open>The four polygons that the program returns for these triangles, and a point of the
  fifth triangle, \<open>(1, 5/2 + 2^-22)\<close>.\<close>

definition tinyResult :: "Polygon list" where
  "tinyResult =
    [[pt 4 0, pt 4 4, pt 0 4, nudge (pt 2 1) 1 0],
     [pt 2 1, pt 0 0, pt 4 0, nudge (pt 2 1) 1 0],
     [pt 2 1, pt 0 4, pt 0 4, pt 0 0],
     [pt 0 4, nudge (pt 2 1) 0 1, nudge (pt 2 1) 1 0]]"

definition gapPoint :: Point where
  "gapPoint = \<lparr>x = Fin 1, y = Fin (5 / 2 + 1 / 2 ^ 22)\<rparr>"

section \<open>Rounding\<close>

text \<open>The binary exponent found by \<open>ilog2\<close> is the right one, and it is the only one.\<close>

lemma pw_add: "(2::rat) powi (a + b) = 2 powi a * 2 powi b"
  by (simp add: power_int_add)

lemma pw_pos: "0 < (2::rat) powi a"
  by simp

lemma pw_mono: "a \<le> b \<Longrightarrow> (2::rat) powi a \<le> 2 powi b"
  by (simp add: power_int_increasing)

lemma pw_less_imp: "(2::rat) powi a < 2 powi b \<Longrightarrow> a < b"
  by (metis linorder_not_less pw_mono)

lemma bitlen_powi_bounds:
  assumes "0 < p"
  shows "(2::rat) powi (bitlen p - 1) \<le> of_int p" and "of_int p < (2::rat) powi (bitlen p)"
proof -
  from assms have b1: "1 \<le> bitlen p"
    by (simp add: bitlen_alt_def)
  from bitlen_bounds[OF assms] have lo: "2 ^ nat (bitlen p - 1) \<le> p" and hi: "p < 2 ^ nat (bitlen p)"
    by simp_all
  have "(of_int (2 ^ nat (bitlen p - 1)) :: rat) \<le> of_int p"
    using lo by (simp only: of_int_le_iff)
  then show "(2::rat) powi (bitlen p - 1) \<le> of_int p"
    using b1 by (simp add: power_int_def)
  have "(of_int p :: rat) < of_int (2 ^ nat (bitlen p))"
    using hi by (simp only: of_int_less_iff)
  then show "of_int p < (2::rat) powi (bitlen p)"
    using b1 by (simp add: power_int_def)
qed

lemma ilog2_bounds:
  assumes "0 < r"
  shows "2 powi (ilog2 r) \<le> r \<and> r < 2 powi (ilog2 r + 1)"
proof -
  obtain p q where pq: "quotient_of r = (p, q)"
    by (cases "quotient_of r")
  then have q: "0 < q" and r: "r = of_int p / of_int q"
    by (auto simp: quotient_of_denom_pos quotient_of_div)
  with assms have p: "0 < p"
    by (simp add: zero_less_divide_iff)
  have rq: "r * of_int q = of_int p"
    using q by (simp add: r)
  have q': "(0::rat) < of_int q"
    using q by simp
  define d where "d = bitlen p - bitlen q"
  have up: "r < 2 powi (d + 1)"
  proof -
    have "r * of_int q < 2 powi (bitlen p)"
      unfolding rq by (rule bitlen_powi_bounds[OF p])
    also have "(2::rat) powi (bitlen p) = 2 powi (d + 1) * 2 powi (bitlen q - 1)"
      unfolding pw_add[symmetric] by (simp add: d_def)
    also have "\<dots> \<le> 2 powi (d + 1) * of_int q"
      by (rule mult_left_mono[OF bitlen_powi_bounds(1)[OF q]]) simp
    finally show ?thesis
      using q' by simp
  qed
  have lo: "2 powi (d - 1) \<le> r"
  proof -
    have "(2::rat) powi (d - 1) * of_int q \<le> 2 powi (d - 1) * 2 powi (bitlen q)"
      by (rule mult_left_mono[OF less_imp_le[OF bitlen_powi_bounds(2)[OF q]]]) simp
    also have "\<dots> = 2 powi (bitlen p - 1)"
      unfolding pw_add[symmetric] by (simp add: d_def)
    also have "\<dots> \<le> r * of_int q"
      unfolding rq by (rule bitlen_powi_bounds[OF p])
    finally show ?thesis
      using q' by simp
  qed
  have il: "ilog2 r = (if 2 powi d \<le> r then d else d - 1)"
    by (simp add: ilog2_def pq d_def Let_def)
  show ?thesis
  proof (cases "2 powi d \<le> r")
    case True
    with up il show ?thesis by simp
  next
    case False
    with lo il show ?thesis by simp
  qed
qed

lemma ilog2_unique:
  assumes "2 powi e \<le> r" "r < 2 powi (e + 1)"
  shows "ilog2 r = e"
proof -
  have "0 < r"
    using assms(1) pw_pos[of e] by linarith
  from ilog2_bounds[OF this]
  have b: "2 powi (ilog2 r) \<le> r" "r < 2 powi (ilog2 r + 1)"
    by simp_all
  have "(2::rat) powi e < 2 powi (ilog2 r + 1)"
    using assms(1) b(2) by linarith
  then have "e < ilog2 r + 1" by (rule pw_less_imp)
  moreover have "(2::rat) powi (ilog2 r) < 2 powi (e + 1)"
    using assms(2) b(1) by linarith
  then have "ilog2 r < e + 1" by (rule pw_less_imp)
  ultimately show ?thesis by simp
qed

subsection \<open>Values that need no rounding\<close>

lemma roundHalfEven_of_int: "roundHalfEven (of_int n) = n"
  by (simp add: roundHalfEven_def)

text \<open>A value \<open>m * 2^k\<close> with \<open>|m| < 2^53\<close> and \<open>k \<ge> -1074\<close> is a binary64 value.\<close>

lemma roundPos_exact:
  assumes "0 < m" "m < 2 ^ 53" "- 1074 \<le> k"
  shows "roundPos (of_int m * 2 powi k) = of_int m * 2 powi k"
proof -
  define r :: rat where "r = of_int m * 2 powi k"
  have rpos: "0 < r"
    using assms(1) by (simp add: r_def)
  define e where "e = ilog2 r"
  have "2 powi e \<le> r"
    using ilog2_bounds[OF rpos] by (simp add: e_def)
  also have "r < 2 powi 53 * 2 powi k"
    unfolding r_def using assms(2) by simp
  also have "\<dots> = 2 powi (53 + k)"
    by (simp add: pw_add)
  finally have "e < 53 + k"
    by (rule pw_less_imp)
  define j where "j = max e (- 1022) - 52"
  have jk: "j \<le> k"
    using \<open>e < 53 + k\<close> assms(3) by (simp add: j_def)
  have "r / 2 powi j = of_int m * 2 powi (k - j)"
    by (simp add: r_def power_int_diff)
  also have "(2::rat) powi (k - j) = of_int (2 ^ nat (k - j))"
    using jk by (simp add: power_int_def)
  finally have "r / 2 powi j = of_int (m * 2 ^ nat (k - j))"
    by simp
  then have "roundHalfEven (r / 2 powi j) = m * 2 ^ nat (k - j)"
    by (simp only: roundHalfEven_of_int)
  then have "roundPos r = of_int (m * 2 ^ nat (k - j)) * 2 powi j"
    by (simp add: roundPos_def e_def j_def Let_def)
  also have "\<dots> = r / 2 powi j * 2 powi j"
    using \<open>r / 2 powi j = of_int (m * 2 ^ nat (k - j))\<close> by simp
  also have "\<dots> = r"
    by simp
  finally show ?thesis
    by (simp add: r_def)
qed

lemma js_round_0: "js_round 0 = Fin 0"
  by (simp add: js_round_def)

lemma js_round_exact:
  assumes "\<bar>m\<bar> < 2 ^ 53" "- 1074 \<le> k" "\<bar>of_int m * 2 powi k\<bar> < (2::rat) powi 1024"
  shows "js_round (of_int m * 2 powi k) = Fin (of_int m * 2 powi k)"
proof -
  define r :: rat where "r = of_int m * 2 powi k"
  consider "m = 0" | "0 < m" | "m < 0"
    by linarith
  then have "js_round r = Fin r"
  proof cases
    case 1
    then show ?thesis by (simp add: r_def js_round_0)
  next
    case 2
    then have "0 < r" by (simp add: r_def)
    moreover have "roundPos \<bar>r\<bar> = r"
      using roundPos_exact[of m k] 2 assms(1,2) \<open>0 < r\<close> by (simp add: r_def)
    ultimately show ?thesis
      using assms(3) by (simp add: js_round_def r_def)
  next
    case 3
    then have neg: "r < 0" by (simp add: r_def mult_neg_pos)
    have "\<bar>r\<bar> = of_int (- m) * 2 powi k"
      using neg by (simp add: r_def)
    then have "roundPos \<bar>r\<bar> = - r"
      using roundPos_exact[of "- m" k] 3 assms(1,2) by (simp add: r_def)
    then show ?thesis
      using assms(3) neg by (simp add: js_round_def r_def)
  qed
  then show ?thesis by (simp add: r_def)
qed

lemma js_round_of_int:
  assumes "\<bar>n\<bar> < 2 ^ 53"
  shows "js_round (of_int n) = Fin (of_int n)"
proof -
  have "\<bar>rat_of_int n\<bar> < 2 ^ 53"
    using assms by (metis of_int_abs of_int_less_numeral_power_cancel_iff)
  also have "\<dots> < (2::rat) powi 1024"
    by simp
  finally show ?thesis
    using js_round_exact[of n 0] assms by simp
qed

lemma js_round_numeral:
  "numeral w < (2::int) ^ 53 \<Longrightarrow> js_round (numeral w) = Fin (numeral w)"
  using js_round_of_int[of "numeral w"] by simp

lemma js_round_neg_numeral:
  "numeral w < (2::int) ^ 53 \<Longrightarrow> js_round (- numeral w) = Fin (- numeral w)"
  using js_round_of_int[of "- numeral w"] by simp

lemma js_round_1: "js_round 1 = Fin 1"
  using js_round_of_int[of 1] by simp

lemma js_round_m1: "js_round (- 1) = Fin (- 1)"
  using js_round_of_int[of "- 1"] by simp

lemma js_round_abs: "js_abs (js_round (- r)) = js_abs (js_round r)"
  by (simp add: js_round_def Let_def)

lemma abs_mult_bound:
  fixes u v :: int
  assumes "\<bar>u\<bar> < 2 ^ 26" "\<bar>v\<bar> < 2 ^ 26"
  shows "\<bar>u * v\<bar> < 2 ^ 52"
proof -
  have "\<bar>u\<bar> * \<bar>v\<bar> < 2 ^ 26 * 2 ^ 26"
    by (rule mult_strict_mono'[OF assms]) simp_all
  then show ?thesis
    by (simp add: abs_mult)
qed

text \<open>A value \<open>m / 2^s\<close> with \<open>|m| < 2^53\<close> and \<open>s \<le> 1074\<close> is a binary64 value.\<close>

lemma js_round_dyadic:
  assumes "\<bar>m\<bar> < 2 ^ 53" "s \<le> 1074"
  shows "js_round (of_int m / 2 ^ s) = Fin (of_int m / 2 ^ s)"
proof -
  have e: "(of_int m :: rat) * 2 powi (- int s) = of_int m / 2 ^ s"
    by (simp add: power_int_minus divide_inverse)
  have "\<bar>rat_of_int m\<bar> < 2 ^ 53"
    using assms(1) by (metis of_int_abs of_int_less_numeral_power_cancel_iff)
  moreover have "\<bar>rat_of_int m\<bar> * 1 \<le> \<bar>rat_of_int m\<bar> * 2 ^ s"
    by (intro mult_left_mono) simp_all
  then have "\<bar>rat_of_int m / 2 ^ s\<bar> \<le> \<bar>rat_of_int m\<bar>"
    by (simp add: divide_le_eq)
  ultimately have "\<bar>rat_of_int m / 2 ^ s\<bar> < 2 ^ 53"
    by linarith
  also have "\<dots> < (2::rat) powi 1024"
    by simp
  finally have b: "\<bar>of_int m * 2 powi (- int s)\<bar> < (2::rat) powi 1024"
    by (simp only: e)
  have "- 1074 \<le> - int s"
    using assms(2) by simp
  from js_round_exact[OF assms(1) this b] show ?thesis
    by (simp only: e)
qed

text \<open>Differences and products of coordinates on the grid of step \<open>2^-20\<close> are computed
  without rounding, and so is the cross product of three grid points of absolute value
  below \<open>2^25\<close> steps (32 units).\<close>

lemma grid_sub:
  assumes "\<bar>a - c\<bar> < 2 ^ 53"
  shows "js_sub (Fin (of_int a / 2 ^ 20)) (Fin (of_int c / 2 ^ 20)) = Fin (of_int (a - c) / 2 ^ 20)"
proof -
  have eq: "(of_int a / 2 ^ 20 - of_int c / 2 ^ 20 :: rat) = of_int (a - c) / 2 ^ 20"
    by (simp add: diff_divide_distrib)
  have "js_round (of_int (a - c) / 2 ^ 20) = Fin (of_int (a - c) / 2 ^ 20)"
    by (rule js_round_dyadic[OF assms]) simp
  then show ?thesis
    by (simp only: js_sub.simps eq)
qed

lemma grid_mul:
  assumes "\<bar>u * v\<bar> < 2 ^ 53"
  shows "js_mul (Fin (of_int u / 2 ^ 20)) (Fin (of_int v / 2 ^ 20)) = Fin (of_int (u * v) / 2 ^ 40)"
proof -
  have eq: "(of_int u / 2 ^ 20 * (of_int v / 2 ^ 20) :: rat) = of_int (u * v) / 2 ^ 40"
    by simp
  have "js_round (of_int (u * v) / 2 ^ 40) = Fin (of_int (u * v) / 2 ^ 40)"
    by (rule js_round_dyadic[OF assms]) simp
  then show ?thesis
    by (simp only: js_mul.simps eq)
qed

lemma grid_sub40:
  assumes "\<bar>p - q\<bar> < 2 ^ 53"
  shows "js_sub (Fin (of_int p / 2 ^ 40)) (Fin (of_int q / 2 ^ 40)) = Fin (of_int (p - q) / 2 ^ 40)"
proof -
  have eq: "(of_int p / 2 ^ 40 - of_int q / 2 ^ 40 :: rat) = of_int (p - q) / 2 ^ 40"
    by (simp add: diff_divide_distrib)
  have "js_round (of_int (p - q) / 2 ^ 40) = Fin (of_int (p - q) / 2 ^ 40)"
    by (rule js_round_dyadic[OF assms]) simp
  then show ?thesis
    by (simp only: js_sub.simps eq)
qed

lemma grid_xy:
  "x (gridPoint a b) = Fin (of_int a / 2 ^ 20)" "y (gridPoint a b) = Fin (of_int b / 2 ^ 20)"
  by (simp_all add: gridPoint_def)

lemma cross_grid:
  fixes ax ay bx "by" cx cy :: int
  assumes "\<bar>ax\<bar> < 2 ^ 25" "\<bar>ay\<bar> < 2 ^ 25" "\<bar>bx\<bar> < 2 ^ 25" "\<bar>by\<bar> < 2 ^ 25"
    "\<bar>cx\<bar> < 2 ^ 25" "\<bar>cy\<bar> < 2 ^ 25"
  shows "js_sub (js_mul (js_sub (x (gridPoint bx by)) (x (gridPoint ax ay)))
                        (js_sub (y (gridPoint cx cy)) (y (gridPoint bx by))))
                (js_mul (js_sub (y (gridPoint bx by)) (y (gridPoint ax ay)))
                        (js_sub (x (gridPoint cx cy)) (x (gridPoint bx by))))
         = Fin (of_int ((bx - ax) * (cy - by) - (by - ay) * (cx - bx)) / 2 ^ 40)"
proof -
  have d: "\<bar>bx - ax\<bar> < 2 ^ 26" "\<bar>cy - by\<bar> < 2 ^ 26" "\<bar>by - ay\<bar> < 2 ^ 26" "\<bar>cx - bx\<bar> < 2 ^ 26"
    using assms by simp_all
  have d53: "\<bar>bx - ax\<bar> < 2 ^ 53" "\<bar>cy - by\<bar> < 2 ^ 53" "\<bar>by - ay\<bar> < 2 ^ 53" "\<bar>cx - bx\<bar> < 2 ^ 53"
    using d by simp_all
  have p: "\<bar>(bx - ax) * (cy - by)\<bar> < 2 ^ 52" "\<bar>(by - ay) * (cx - bx)\<bar> < 2 ^ 52"
    using abs_mult_bound d by blast+
  have p53: "\<bar>(bx - ax) * (cy - by)\<bar> < 2 ^ 53" "\<bar>(by - ay) * (cx - bx)\<bar> < 2 ^ 53"
    using p by simp_all
  have t: "\<bar>(bx - ax) * (cy - by) - (by - ay) * (cx - bx)\<bar> < 2 ^ 53"
    using p by simp
  show ?thesis
    unfolding grid_xy grid_sub[OF d53(1)] grid_sub[OF d53(2)] grid_sub[OF d53(3)] grid_sub[OF d53(4)]
      grid_mul[OF p53(1)] grid_mul[OF p53(2)]
    by (rule grid_sub40[OF t])
qed

subsection \<open>Rounding a given value\<close>

text \<open>Rounding with the exponent and the rounded significand given.\<close>

lemma js_round_cert:
  assumes "2 powi e \<le> r" "r < 2 powi (e + 1)"
    and "roundHalfEven (r / 2 powi (max e (- 1022) - 52)) = n"
    and "of_int n * 2 powi (max e (- 1022) - 52) < (2::rat) powi 1024"
  shows "js_round r = Fin (of_int n * 2 powi (max e (- 1022) - 52))"
    and "js_round (- r) = Fin (- (of_int n * 2 powi (max e (- 1022) - 52)))"
proof -
  have pos: "0 < r"
    using assms(1) pw_pos[of e] by linarith
  have "roundPos r = of_int n * 2 powi (max e (- 1022) - 52)"
    using assms(3) by (simp add: roundPos_def ilog2_unique[OF assms(1,2)] Let_def)
  then show "js_round r = Fin (of_int n * 2 powi (max e (- 1022) - 52))"
    and "js_round (- r) = Fin (- (of_int n * 2 powi (max e (- 1022) - 52)))"
    using pos assms(4) by (simp_all add: js_round_def)
qed

lemma floor_rat_numeral_div:
  "\<lfloor>(numeral a / numeral b :: rat)\<rfloor> = numeral a div numeral b"
  using floor_divide_of_int_eq[of "numeral a" "numeral b", where ?'a = rat] by simp

lemmas round_eval = roundHalfEven_def Let_def floor_rat_numeral_div

lemma tolerance_value: "tolerance = Fin (4722366482869645 / 2 ^ 72)"
  unfolding tolerance_def
  using js_round_cert(1)[of "- 20" "1 / 1000000" 4722366482869645]
  by (simp add: round_eval)

lemmas num_eval = js_round_0 js_round_1 js_round_m1 js_round_numeral js_round_neg_numeral
  tolerance_value

text \<open>The square of \<open>2^27 + 1\<close> needs 55 bits: it is rounded down by 1.\<close>

lemma big_round:
  "js_round 18014398777917441 = Fin 18014398777917440"
  "js_round 18014398777917440 = Fin 18014398777917440"
  "js_round (- 18014398777917440) = Fin (- 18014398777917440)"
  "js_round (- 18014398777917441) = Fin (- 18014398777917440)"
  using js_round_cert[of 54 18014398777917441 "2 ^ 52 + 2 ^ 26"]
    js_round_exact[of "2 ^ 52 + 2 ^ 26" 2] js_round_exact[of "- (2 ^ 52 + 2 ^ 26)" 2]
  by (simp_all add: round_eval)

section \<open>Geometry primitives\<close>

subsection \<open>pointsEqual\<close>

lemma js_sub_abs_commute: "js_abs (js_sub a b) = js_abs (js_sub b a)"
proof (cases a; cases b)
  fix r s assume "a = Fin r" "b = Fin s"
  then show ?thesis
    using js_round_abs[of "r - s"] by simp
qed simp_all

lemma pointsEqual_sym: "pointsEqual a b = pointsEqual b a"
  unfolding pointsEqual_def
  by (simp only: js_sub_abs_commute[of "x a" "x b"] js_sub_abs_commute[of "y a" "y b"])

lemma close_self: "js_lt (js_abs (js_sub v v)) tolerance \<longleftrightarrow> is_finite v"
  by (cases v) (simp_all add: is_finite_def js_round_0 tolerance_value)

lemma pointsEqual_refl_iff: "pointsEqual p p \<longleftrightarrow> is_finite (x p) \<and> is_finite (y p)"
  by (simp add: pointsEqual_def close_self)

lemma int_close_iff:
  assumes "\<bar>a - c\<bar> < 2 ^ 53"
  shows "js_lt (js_abs (js_round (of_int a - of_int c))) tolerance \<longleftrightarrow> a = c"
proof -
  have "js_round (of_int a - of_int c) = Fin (of_int (a - c))"
    using js_round_of_int[OF assms] by simp
  moreover have "\<bar>rat_of_int (a - c)\<bar> < 4722366482869645 / 2 ^ 72 \<longleftrightarrow> a = c"
  proof
    assume h: "\<bar>rat_of_int (a - c)\<bar> < 4722366482869645 / 2 ^ 72"
    have "(4722366482869645 / 2 ^ 72 :: rat) < 1" by simp
    with h have "\<bar>rat_of_int (a - c)\<bar> < 1" by linarith
    then have "\<bar>a - c\<bar> < 1"
      by (metis of_int_abs of_int_less_1_iff)
    then show "a = c" by simp
  qed simp
  ultimately show ?thesis
    by (simp add: tolerance_value)
qed

lemma pointsEqual_pt:
  assumes "\<bar>a - c\<bar> < 2 ^ 53" "\<bar>b - d\<bar> < 2 ^ 53"
  shows "pointsEqual (pt a b) (pt c d) \<longleftrightarrow> a = c \<and> b = d"
  by (simp add: pointsEqual_def pt_def int_close_iff[OF assms(1)] int_close_iff[OF assms(2)])

lemmas poly_eval = getEdges_def edgesMatch_def pointsEqual_pt

text \<open>Claim C9, amended. \<^verbatim>\<open>pointsEqual(p, p)\<close> is true exactly when both coordinates of
  \<open>p\<close> are finite (it is false when a coordinate is \<^verbatim>\<open>NaN\<close> or an infinity, because the
  difference is then \<^verbatim>\<open>NaN\<close>); \<^verbatim>\<open>pointsEqual\<close> is symmetric for all points; and it holds
  iff both absolute coordinate differences are below the tolerance, the binary64 value of
  \<^verbatim>\<open>1e-6\<close>.\<close>

theorem C9_pointsEqual:
  "(pointsEqual p p \<longleftrightarrow> is_finite (x p) \<and> is_finite (y p)) \<and>
   pointsEqual a b = pointsEqual b a \<and>
   (pointsEqual a b \<longleftrightarrow>
      js_lt (js_abs (js_sub (x a) (x b))) tolerance \<and>
      js_lt (js_abs (js_sub (y a) (y b))) tolerance) \<and>
   tolerance = js_round (1 / 10 ^ 6)"
  using pointsEqual_refl_iff[of p] pointsEqual_sym[of a b]
  by (simp add: pointsEqual_def tolerance_def)

text \<open>Claim C9, amended, at concrete points: a finite point, a point with an infinite
  coordinate, and two points two units apart.\<close>

theorem C9_witness:
  "pointsEqual \<lparr>x = Fin 1, y = Fin 2\<rparr> \<lparr>x = Fin 1, y = Fin 2\<rparr> \<and>
   \<not> pointsEqual \<lparr>x = PosInf, y = Fin 2\<rparr> \<lparr>x = PosInf, y = Fin 2\<rparr> \<and>
   pointsEqual \<lparr>x = Fin 1, y = Fin 2\<rparr> \<lparr>x = Fin 3, y = Fin 2\<rparr> =
   pointsEqual \<lparr>x = Fin 3, y = Fin 2\<rparr> \<lparr>x = Fin 1, y = Fin 2\<rparr> \<and>
   \<not> pointsEqual \<lparr>x = Fin 1, y = Fin 2\<rparr> \<lparr>x = Fin 3, y = Fin 2\<rparr>"
  using C9_pointsEqual[of "\<lparr>x = Fin 1, y = Fin 2\<rparr>" "\<lparr>x = Fin 1, y = Fin 2\<rparr>" "\<lparr>x = Fin 3, y = Fin 2\<rparr>"]
    C9_pointsEqual[of "\<lparr>x = PosInf, y = Fin 2\<rparr>" "\<lparr>x = Fin 1, y = Fin 2\<rparr>" "\<lparr>x = Fin 3, y = Fin 2\<rparr>"]
  by (simp add: is_finite_def num_eval)

text \<open>Claim C9 as stated fails: a point with a \<^verbatim>\<open>NaN\<close> coordinate is not equal to
  itself.\<close>

theorem C9_counterexample:
  "\<not> pointsEqual \<lparr>x = NaN, y = Fin 0\<rparr> \<lparr>x = NaN, y = Fin 0\<rparr>"
  by (simp add: pointsEqual_def)

text \<open>On the grid of step \<open>2^-20\<close> the tolerance test is a test on the number of steps:
  \<open>2^-20 < 1e-6 < 2 * 2^-20\<close>.\<close>

lemma grid_close_iff:
  assumes "\<bar>a - c\<bar> < 2 ^ 53"
  shows "js_lt (js_abs (js_sub (Fin (of_int a / 2 ^ 20)) (Fin (of_int c / 2 ^ 20)))) tolerance
           \<longleftrightarrow> \<bar>a - c\<bar> \<le> 1"
proof -
  define k where "k = \<bar>a - c\<bar>"
  have ab: "\<bar>rat_of_int (a - c) / 2 ^ 20\<bar> = of_int k / 2 ^ 20"
    by (simp add: k_def)
  have iff: "(of_int k / 2 ^ 20 < (4722366482869645 / 2 ^ 72 :: rat)) \<longleftrightarrow> k \<le> 1"
  proof
    assume "of_int k / 2 ^ 20 < (4722366482869645 / 2 ^ 72 :: rat)"
    then have "rat_of_int k * 2 ^ 52 < 4722366482869645"
      by (simp add: field_simps)
    then have "rat_of_int (k * 2 ^ 52) < rat_of_int 4722366482869645"
      by simp
    then have "k * 2 ^ 52 < 4722366482869645"
      by (simp only: of_int_less_iff)
    then show "k \<le> 1"
      by simp
  next
    assume "k \<le> 1"
    then have "rat_of_int k \<le> 1"
      by simp
    then have "rat_of_int k * 2 ^ 52 < 4722366482869645"
      by simp
    then show "of_int k / 2 ^ 20 < (4722366482869645 / 2 ^ 72 :: rat)"
      by (simp add: field_simps)
  qed
  have "js_lt (js_abs (js_sub (Fin (of_int a / 2 ^ 20)) (Fin (of_int c / 2 ^ 20)))) tolerance
           \<longleftrightarrow> k \<le> 1"
    unfolding grid_sub[OF assms] tolerance_value js_abs.simps js_lt.simps ab by (rule iff)
  then show ?thesis
    by (simp only: k_def)
qed

lemma pointsEqual_grid:
  assumes "\<bar>a - c\<bar> < 2 ^ 53" "\<bar>b - d\<bar> < 2 ^ 53"
  shows "pointsEqual (gridPoint a b) (gridPoint c d) \<longleftrightarrow> \<bar>a - c\<bar> \<le> 1 \<and> \<bar>b - d\<bar> \<le> 1"
  unfolding pointsEqual_def gridPoint_def Point.simps
  by (simp only: grid_close_iff[OF assms(1)] grid_close_iff[OF assms(2)])

text \<open>Integer points and their neighbours are grid points.\<close>

lemma pt_grid: "pt a b = gridPoint (a * 1048576) (b * 1048576)"
  by (simp add: pt_def gridPoint_def)

lemma nudge_grid: "nudge (gridPoint a b) da db = gridPoint (a + da) (b + db)"
  by (simp add: nudge_def gridPoint_def ratOf_def add_divide_distrib)

lemmas to_grid = pt_grid nudge_grid

lemmas grid_poly_eval = getEdges_def edgesMatch_def pointsEqual_grid upt_rec

subsection \<open>Exact geometry\<close>

lemma ratOf_Fin: "ratOf (Fin r) = r"
  by (simp add: ratOf_def)

lemma ratOf_grid:
  "ratOf (x (gridPoint a b)) = of_int a / 2 ^ 20" "ratOf (y (gridPoint a b)) = of_int b / 2 ^ 20"
  by (simp_all add: gridPoint_def ratOf_def)

lemma orient_grid:
  "orient (gridPoint ax ay) (gridPoint bx by) (gridPoint cx cy) =
     of_int ((bx - ax) * (cy - ay) - (by - ay) * (cx - ax)) / 2 ^ 40"
  by (simp add: orient_def ratOf_grid field_simps)

lemmas area_eval = area2_def getEdges_def upt_rec ratOf_grid

lemmas point_eval = getEdges_def upt_rec orient_def ratOf_grid ratOf_Fin

subsection \<open>isConvex\<close>

lemma sign_of_nonzero: "js_neq c (Fin 0) \<Longrightarrow> \<not> js_eq (js_sign c) (Fin 0)"
  by (cases c) (auto simp: js_neq_def js_eq_def sgn_eq_0_iff)

lemma convexLoop_tracked:
  "\<not> js_eq s (Fin 0) \<Longrightarrow>
   convexLoop poly s is =
     list_all (\<lambda>d. \<not> js_neq (js_sign d) s) (filter (\<lambda>c. js_neq c (Fin 0)) (map (cross poly) is))"
  by (induction "is") auto

lemma convexLoop_untracked:
  "js_eq s (Fin 0) \<Longrightarrow>
   convexLoop poly s is =
     (case filter (\<lambda>c. js_neq c (Fin 0)) (map (cross poly) is) of
        [] \<Rightarrow> True
      | c # cs \<Rightarrow> list_all (\<lambda>d. \<not> js_neq (js_sign d) (js_sign c)) cs)"
proof (induction "is")
  case Nil
  then show ?case by simp
next
  case (Cons i "is")
  show ?case
  proof (cases "js_neq (cross poly i) (Fin 0)")
    case True
    then show ?thesis
      using Cons.prems convexLoop_tracked[OF sign_of_nonzero[OF True], of poly "is"] by simp
  next
    case False
    then show ?thesis
      using Cons by simp
  qed
qed

lemmas cross_eval = cross_def pt_def Let_def num_eval

lemmas convex_eval = isConvex_def cross_eval js_neq_def js_eq_def

lemmas grid_convex_eval = isConvex_def cross_def Let_def cross_grid js_neq_def js_eq_def

lemma upt3: "[0..<3] = [0, 1, 2]"
  by (simp add: upt_rec)

text \<open>Claim C7. \<^verbatim>\<open>isConvex\<close> is the algorithm of the specification: fewer than 3 points
  is non-convex; zero cross products are skipped; the polygon is non-convex iff a later
  nonzero cross product differs in sign from the first nonzero one.\<close>

theorem C7_isConvex_algorithm: "isConvex poly = isConvex_spec poly"
  using convexLoop_untracked[of "Fin 0" poly "[0..<length poly]"]
  by (simp add: isConvex_def isConvex_spec_def js_eq_def Let_def)

text \<open>Claim C7 at a square, at a concave arrowhead and at a two-point polygon.\<close>

theorem C7_witness:
  "isConvex [pt 0 0, pt 2 0, pt 2 2, pt 0 2] \<and>
   \<not> isConvex [pt 0 0, pt 4 1, pt 0 2, pt 1 1] \<and>
   \<not> isConvex [pt 0 0, pt 1 0]"
proof -
  have "isConvex_spec [pt 0 0, pt 2 0, pt 2 2, pt 0 2]"
    by (simp add: isConvex_spec_def cross_eval js_neq_def js_eq_def)
  moreover have "\<not> isConvex_spec [pt 0 0, pt 4 1, pt 0 2, pt 1 1]"
    by (simp add: isConvex_spec_def cross_eval js_neq_def js_eq_def)
  moreover have "\<not> isConvex_spec [pt 0 0, pt 1 0]"
    by (simp add: isConvex_spec_def)
  ultimately show ?thesis
    using C7_isConvex_algorithm[of "[pt 0 0, pt 2 0, pt 2 2, pt 0 2]"]
      C7_isConvex_algorithm[of "[pt 0 0, pt 4 1, pt 0 2, pt 1 1]"]
      C7_isConvex_algorithm[of "[pt 0 0, pt 1 0]"]
    by simp
qed

subsection \<open>Polygons of three points\<close>

lemma three_points:
  assumes "length poly = 3"
  obtains A B C where "poly = [A, B, C]"
  using assms by (auto simp: numeral_3_eq_3 length_Suc_conv)

text \<open>In exact arithmetic the three cross products of a triangle are one number.\<close>

lemma cross_cyclic:
  fixes ax ay bx "by" cx cy :: rat
  shows "(cx - bx) * (ay - cy) - (cy - by) * (ax - cx) = (bx - ax) * (cy - by) - (by - ay) * (cx - bx)"
    and "(ax - cx) * (by - ay) - (ay - cy) * (bx - ax) = (bx - ax) * (cy - by) - (by - ay) * (cx - bx)"
  by (simp_all add: algebra_simps)

lemma exactCross_three:
  "exactCross [A, B, C] (Suc 0) = exactCross [A, B, C] 0"
  "exactCross [A, B, C] 2 = exactCross [A, B, C] 0"
proof -
  have e0: "exactCross [A, B, C] 0 =
      (ratOf (x B) - ratOf (x A)) * (ratOf (y C) - ratOf (y B)) -
      (ratOf (y B) - ratOf (y A)) * (ratOf (x C) - ratOf (x B))"
    by (simp add: exactCross_def)
  have e1: "exactCross [A, B, C] (Suc 0) =
      (ratOf (x C) - ratOf (x B)) * (ratOf (y A) - ratOf (y C)) -
      (ratOf (y C) - ratOf (y B)) * (ratOf (x A) - ratOf (x C))"
    by (simp add: exactCross_def)
  have e2: "exactCross [A, B, C] 2 =
      (ratOf (x A) - ratOf (x C)) * (ratOf (y B) - ratOf (y A)) -
      (ratOf (y A) - ratOf (y C)) * (ratOf (x B) - ratOf (x A))"
    by (simp add: exactCross_def)
  show "exactCross [A, B, C] (Suc 0) = exactCross [A, B, C] 0"
    unfolding e0 e1 by (rule cross_cyclic)
  show "exactCross [A, B, C] 2 = exactCross [A, B, C] 0"
    unfolding e0 e2 by (rule cross_cyclic)
qed

lemma js_sign_eq_Fin:
  "js_sign c = Fin s \<Longrightarrow> (s = 0 \<longrightarrow> c = Fin 0) \<and> (s \<noteq> 0 \<longrightarrow> c \<noteq> NaN \<and> c \<noteq> Fin 0)"
  by (cases c) (auto simp: sgn_eq_0_iff)

lemma convex_equal_signs:
  assumes "length poly = 3"
    and "js_sign (cross poly 0) = Fin s" "js_sign (cross poly (Suc 0)) = Fin s"
    "js_sign (cross poly 2) = Fin s"
  shows "isConvex poly"
proof (cases "s = 0")
  case True
  then have "cross poly 0 = Fin 0" "cross poly (Suc 0) = Fin 0" "cross poly 2 = Fin 0"
    using assms(2,3,4) js_sign_eq_Fin by blast+
  then show ?thesis
    using assms(1) by (simp add: isConvex_def upt3 js_neq_def js_eq_def)
next
  case False
  then have "cross poly 0 \<noteq> NaN \<and> cross poly 0 \<noteq> Fin 0"
    "cross poly (Suc 0) \<noteq> NaN \<and> cross poly (Suc 0) \<noteq> Fin 0"
    "cross poly 2 \<noteq> NaN \<and> cross poly 2 \<noteq> Fin 0"
    using assms(2,3,4) js_sign_eq_Fin by blast+
  then show ?thesis
    using assms False by (simp add: isConvex_def upt3 js_neq_def js_eq_def)
qed

lemma all_less_3: "(\<forall>i<3. P i) \<longleftrightarrow> P 0 \<and> P (Suc 0) \<and> P (2::nat)"
  by (auto simp: numeral_3_eq_3 less_Suc_eq numeral_2_eq_2)

text \<open>Claim C10, amended. Every polygon of exactly 3 points whose three computed cross
  products have the sign of the exact cross product passes \<^verbatim>\<open>isConvex\<close>, collinear and
  coincident points included, and \<^verbatim>\<open>validateInput\<close> accepts it as an obstacle. In exact
  arithmetic the three cross products of a triangle are equal, so no two signs differ.
  The hypothesis holds whenever the cross products are computed without rounding error:
  for three coincident points at any finite coordinates, for integer or half-integer
  coordinates of moderate size; and it holds when rounding changes a cross product but
  not its sign.\<close>

theorem C10_triangle_signs:
  assumes "length poly = 3"
    and "\<forall>i<3. js_sign (cross poly i) = Fin (sgn (exactCross poly i))"
  shows "isConvex poly \<and> (length boundingBox = 4 \<longrightarrow> validateInput boundingBox [poly] = Inr ())"
proof -
  from assms(1) obtain A B C where poly: "poly = [A, B, C]"
    by (rule three_points)
  have c0: "js_sign (cross poly 0) = Fin (sgn (exactCross poly 0))"
    using assms(2) by simp
  have "js_sign (cross poly (Suc 0)) = Fin (sgn (exactCross poly (Suc 0)))"
    using assms(2) by simp
  then have c1: "js_sign (cross poly (Suc 0)) = Fin (sgn (exactCross poly 0))"
    by (simp only: poly exactCross_three)
  have "js_sign (cross poly 2) = Fin (sgn (exactCross poly 2))"
    using assms(2) by simp
  then have c2: "js_sign (cross poly 2) = Fin (sgn (exactCross poly 0))"
    by (simp only: poly exactCross_three)
  have "isConvex poly"
    by (rule convex_equal_signs[OF assms(1) c0 c1 c2])
  then show ?thesis
    using assms(1) by (simp add: validateInput_def)
qed

text \<open>Claim C10, amended, at the collinear points \<open>(1/2, 1/2)\<close>, \<open>(3/2, 3/2)\<close>,
  \<open>(5/2, 5/2)\<close>, at three times the point \<open>(3/8, 5/8)\<close>, at the triangle \<open>(0, 0)\<close>,
  \<open>(2^25, 0)\<close>, \<open>(0, 2^25)\<close>, and at the triangle \<open>(0, 0)\<close>, \<open>(2^27 + 1, 0)\<close>,
  \<open>(0, 2^27 + 1)\<close>, whose cross products are rounded from \<open>2^54 + 2^28 + 1\<close> to
  \<open>2^54 + 2^28\<close>.\<close>

theorem C10_witness:
  "isConvex [\<lparr>x = Fin (1 / 2), y = Fin (1 / 2)\<rparr>, \<lparr>x = Fin (3 / 2), y = Fin (3 / 2)\<rparr>,
             \<lparr>x = Fin (5 / 2), y = Fin (5 / 2)\<rparr>] \<and>
   validateInput [pt (- 5) (- 5), pt 5 (- 5), pt 5 5, pt (- 5) 5]
     [[\<lparr>x = Fin (1 / 2), y = Fin (1 / 2)\<rparr>, \<lparr>x = Fin (3 / 2), y = Fin (3 / 2)\<rparr>,
       \<lparr>x = Fin (5 / 2), y = Fin (5 / 2)\<rparr>]] = Inr () \<and>
   isConvex [\<lparr>x = Fin (3 / 8), y = Fin (5 / 8)\<rparr>, \<lparr>x = Fin (3 / 8), y = Fin (5 / 8)\<rparr>,
             \<lparr>x = Fin (3 / 8), y = Fin (5 / 8)\<rparr>] \<and>
   isConvex [pt 0 0, pt (2 ^ 25) 0, pt 0 (2 ^ 25)] \<and>
   isConvex [pt 0 0, pt (2 ^ 27 + 1) 0, pt 0 (2 ^ 27 + 1)] \<and>
   cross [pt 0 0, pt (2 ^ 27 + 1) 0, pt 0 (2 ^ 27 + 1)] 0 = Fin 18014398777917440 \<and>
   exactCross [pt 0 0, pt (2 ^ 27 + 1) 0, pt 0 (2 ^ 27 + 1)] 0 = 18014398777917441"
proof -
  let ?bb = "[pt (- 5) (- 5), pt 5 (- 5), pt 5 5, pt (- 5) 5]"
  let ?half = "[\<lparr>x = Fin (1 / 2), y = Fin (1 / 2)\<rparr>, \<lparr>x = Fin (3 / 2), y = Fin (3 / 2)\<rparr>,
             \<lparr>x = Fin (5 / 2), y = Fin (5 / 2)\<rparr>]"
  let ?same = "[\<lparr>x = Fin (3 / 8), y = Fin (5 / 8)\<rparr>, \<lparr>x = Fin (3 / 8), y = Fin (5 / 8)\<rparr>,
             \<lparr>x = Fin (3 / 8), y = Fin (5 / 8)\<rparr>]"
  let ?wide = "[pt 0 0, pt (2 ^ 25) 0, pt 0 (2 ^ 25)]"
  let ?big = "[pt 0 0, pt (2 ^ 27 + 1) 0, pt 0 (2 ^ 27 + 1)]"
  have h1: "\<forall>i<3. js_sign (cross ?half i) = Fin (sgn (exactCross ?half i))"
    by (simp add: all_less_3 cross_eval exactCross_def ratOf_Fin)
  have h2: "\<forall>i<3. js_sign (cross ?same i) = Fin (sgn (exactCross ?same i))"
    by (simp add: all_less_3 cross_eval exactCross_def ratOf_Fin)
  have h3: "\<forall>i<3. js_sign (cross ?wide i) = Fin (sgn (exactCross ?wide i))"
    by (simp add: all_less_3 cross_eval exactCross_def ratOf_Fin)
  have h4: "\<forall>i<3. js_sign (cross ?big i) = Fin (sgn (exactCross ?big i))"
    by (simp add: all_less_3 cross_eval exactCross_def ratOf_Fin big_round)
  have v: "cross ?big 0 = Fin 18014398777917440 \<and> exactCross ?big 0 = 18014398777917441"
    by (simp add: cross_eval exactCross_def ratOf_Fin big_round)
  show ?thesis
    using C10_triangle_signs[of ?half ?bb, OF _ h1] C10_triangle_signs[of ?same ?bb, OF _ h2]
      C10_triangle_signs[of ?wide ?bb, OF _ h3] C10_triangle_signs[of ?big ?bb, OF _ h4] v
    by simp
qed

lemma collinear_cross0: "cross collinearTriangle 0 = Fin 0"
  using js_round_exact[of 3 "- 53"] js_round_exact[of 1 "- 53"]
  by (simp add: collinearTriangle_def cross_def Let_def num_eval)

lemma collinear_cross1: "cross collinearTriangle (Suc 0) = Fin (- (1 / 2 ^ 104))"
  using js_round_exact[of 1 "- 53"]
    js_round_cert(2)[of 1 "3 + 3 / 2 ^ 53" "3 * 2 ^ 51 + 1"]
    js_round_exact[of "- (3 * 2 ^ 51 + 1)" "- 104"]
    js_round_exact[of 3 "- 53"]
    js_round_cert(2)[of 0 "1 + 1 / 2 ^ 53" "2 ^ 52"]
    js_round_exact[of "- 3" "- 53"]
    js_round_exact[of "- 1" "- 104"]
  by (simp add: collinearTriangle_def cross_def num_eval round_eval)

lemma collinear_cross2: "cross collinearTriangle 2 = Fin (1 / 2 ^ 51)"
  using js_round_cert(2)[of 0 "1 + 1 / 2 ^ 53" "2 ^ 52"]
    js_round_cert(2)[of 1 "3 + 3 / 2 ^ 53" "3 * 2 ^ 51 + 1"]
    js_round_exact[of "- (3 * 2 ^ 51 + 1)" "- 51"]
    js_round_exact[of 1 "- 51"]
  by (simp add: collinearTriangle_def cross_def num_eval round_eval)

lemma collinear_length: "length collinearTriangle = 3"
  by (simp add: collinearTriangle_def)

lemma collinear_not_convex: "\<not> isConvex collinearTriangle"
  by (simp add: isConvex_def collinear_length upt3 collinear_cross0 collinear_cross1
      collinear_cross2 js_neq_def js_eq_def)

lemma collinear_binary64: "binary64Points collinearTriangle"
  using js_round_exact[of 1 "- 53"] js_round_exact[of 3 "- 53"]
  by (simp add: binary64Points_def binary64_def collinearTriangle_def num_eval)

text \<open>Claim C10 as stated fails at three collinear points with binary64
  coordinates, \<open>(-1, -3)\<close>, \<open>(0, 0)\<close> and \<open>(2^-53, 3 * 2^-53)\<close>: the computed cross
  products are \<open>0\<close>, \<open>-2^-104\<close> and \<open>2^-51\<close>, so \<^verbatim>\<open>isConvex\<close> returns false and
  \<^verbatim>\<open>validateInput\<close> rejects the obstacle.\<close>

theorem C10_counterexample:
  "length collinearTriangle = 3 \<and> binary64Points collinearTriangle \<and>
   \<not> isConvex collinearTriangle \<and>
   validateInput [pt (- 5) (- 5), pt 5 (- 5), pt 5 5, pt (- 5) 5] [collinearTriangle]
     = Inl (ObstacleNotConvex 1)"
  by (simp add: collinear_length collinear_binary64 collinear_not_convex validateInput_def)

section \<open>Input validation\<close>

lemma checkObstacles_isl:
  "isl (checkObstacles i obs) \<longleftrightarrow> (\<exists>ob\<in>set obs. length ob < 3 \<or> \<not> isConvex ob)"
  by (induction obs arbitrary: i) auto

lemma checkObstacles_error:
  assumes "checkObstacles i obs = Inl e"
  shows "\<exists>k<length obs.
           (\<forall>j<k. \<not> length (obs ! j) < 3 \<and> isConvex (obs ! j)) \<and>
           ((length (obs ! k) < 3 \<and> e = ObstacleTooFewPoints (i + k + 1)) \<or>
            (\<not> length (obs ! k) < 3 \<and> \<not> isConvex (obs ! k) \<and> e = ObstacleNotConvex (i + k + 1)))"
  using assms
proof (induction obs arbitrary: i)
  case Nil
  then show ?case by simp
next
  case (Cons ob obs)
  show ?case
  proof (cases "length ob < 3 \<or> \<not> isConvex ob")
    case True
    with Cons.prems have
      "(length ob < 3 \<and> e = ObstacleTooFewPoints (i + 1)) \<or>
       (\<not> length ob < 3 \<and> \<not> isConvex ob \<and> e = ObstacleNotConvex (i + 1))"
      by (auto split: if_splits)
    then show ?thesis
      by (intro exI[of _ 0]) simp
  next
    case False
    with Cons.prems have "checkObstacles (i + 1) obs = Inl e"
      by simp
    from Cons.IH[OF this] obtain k where k: "k < length obs"
      "\<forall>j<k. \<not> length (obs ! j) < 3 \<and> isConvex (obs ! j)"
      "(length (obs ! k) < 3 \<and> e = ObstacleTooFewPoints (i + 1 + k + 1)) \<or>
       (\<not> length (obs ! k) < 3 \<and> \<not> isConvex (obs ! k) \<and> e = ObstacleNotConvex (i + 1 + k + 1))"
      by blast
    show ?thesis
    proof (intro exI[of _ "Suc k"] conjI)
      show "Suc k < length (ob # obs)" using k(1) by simp
      show "\<forall>j<Suc k. \<not> length ((ob # obs) ! j) < 3 \<and> isConvex ((ob # obs) ! j)"
        using k(2) False by (auto simp: nth_Cons split: nat.splits)
      show "(length ((ob # obs) ! Suc k) < 3 \<and> e = ObstacleTooFewPoints (i + Suc k + 1)) \<or>
            (\<not> length ((ob # obs) ! Suc k) < 3 \<and> \<not> isConvex ((ob # obs) ! Suc k) \<and>
             e = ObstacleNotConvex (i + Suc k + 1))"
        using k(3) by simp
    qed
  qed
qed

lemma checkObstacles_not_other:
  "checkObstacles i obs \<noteq> Inl BoundingBoxNot4Points"
  "checkObstacles i obs \<noteq> Inl TriangulationFailure"
  by (induction obs arbitrary: i) auto

text \<open>The first obstacle that fails a check decides the error, with its position.\<close>

lemma checkObstacles_first:
  assumes "k < length obs"
    and "\<forall>j<k. \<not> length (obs ! j) < 3 \<and> isConvex (obs ! j)"
    and "length (obs ! k) < 3 \<or> \<not> isConvex (obs ! k)"
  shows "checkObstacles i obs =
           Inl (if length (obs ! k) < 3 then ObstacleTooFewPoints (i + k + 1)
                else ObstacleNotConvex (i + k + 1))"
  using assms
proof (induction obs arbitrary: i k)
  case Nil
  then show ?case by simp
next
  case (Cons ob obs)
  show ?case
  proof (cases k)
    case 0
    with Cons.prems(3) show ?thesis by auto
  next
    case (Suc k')
    with Cons.prems(2) have ok: "\<not> length ob < 3" "isConvex ob"
      by auto
    have "checkObstacles (i + 1) obs =
           Inl (if length (obs ! k') < 3 then ObstacleTooFewPoints (i + 1 + k' + 1)
                else ObstacleNotConvex (i + 1 + k' + 1))"
    proof (rule Cons.IH)
      show "k' < length obs" using Cons.prems(1) Suc by simp
      show "\<forall>j<k'. \<not> length (obs ! j) < 3 \<and> isConvex (obs ! j)"
        using Cons.prems(2) Suc by auto
      show "length (obs ! k') < 3 \<or> \<not> isConvex (obs ! k')"
        using Cons.prems(3) Suc by simp
    qed
    with ok Suc show ?thesis by simp
  qed
qed

text \<open>Claim C3. \<^verbatim>\<open>validateInput\<close> throws iff the bounding box does not have exactly 4
  points, or an obstacle has fewer than 3 points, or an obstacle fails \<^verbatim>\<open>isConvex\<close>. The
  bounding-box error is thrown exactly for a box without 4 points. When the box has 4
  points and the obstacle at position \<open>k\<close> (counted from 0) is the first with fewer than
  3 points or failing \<^verbatim>\<open>isConvex\<close>, the error thrown is the obstacle error of that check
  with the number \<open>k + 1\<close>; when there is no such obstacle nothing is thrown. Conversely
  an obstacle error with number \<open>n\<close> means that obstacle \<open>n\<close> is the first offending one
  and tells which check it failed. \<^verbatim>\<open>validateInput\<close> never gives the triangulator's error.
  On every error \<^verbatim>\<open>decomposeWalkableArea\<close> fails with the same error, whatever the
  triangulator would do.\<close>

theorem C3_validateInput:
  "(isl (validateInput boundingBox obstacles) \<longleftrightarrow>
      length boundingBox \<noteq> 4 \<or> (\<exists>ob\<in>set obstacles. length ob < 3) \<or>
      (\<exists>ob\<in>set obstacles. \<not> isConvex ob)) \<and>
   (validateInput boundingBox obstacles = Inl BoundingBoxNot4Points \<longleftrightarrow> length boundingBox \<noteq> 4) \<and>
   (\<forall>k<length obstacles.
      length boundingBox = 4 \<and>
      (\<forall>j<k. \<not> length (obstacles ! j) < 3 \<and> isConvex (obstacles ! j)) \<and>
      (length (obstacles ! k) < 3 \<or> \<not> isConvex (obstacles ! k)) \<longrightarrow>
      validateInput boundingBox obstacles =
        Inl (if length (obstacles ! k) < 3 then ObstacleTooFewPoints (k + 1)
             else ObstacleNotConvex (k + 1))) \<and>
   (length boundingBox = 4 \<and> (\<forall>ob\<in>set obstacles. \<not> length ob < 3 \<and> isConvex ob) \<longrightarrow>
      validateInput boundingBox obstacles = Inr ()) \<and>
   (\<forall>n. validateInput boundingBox obstacles = Inl (ObstacleTooFewPoints n) \<or>
        validateInput boundingBox obstacles = Inl (ObstacleNotConvex n) \<longrightarrow>
        1 \<le> n \<and> n \<le> length obstacles \<and>
        (validateInput boundingBox obstacles = Inl (ObstacleTooFewPoints n)
           \<longleftrightarrow> length (obstacles ! (n - 1)) < 3) \<and>
        (validateInput boundingBox obstacles = Inl (ObstacleNotConvex n)
           \<longleftrightarrow> \<not> length (obstacles ! (n - 1)) < 3 \<and> \<not> isConvex (obstacles ! (n - 1))) \<and>
        (\<forall>j<n - 1. \<not> length (obstacles ! j) < 3 \<and> isConvex (obstacles ! j))) \<and>
   validateInput boundingBox obstacles \<noteq> Inl TriangulationFailure \<and>
   (\<forall>e. validateInput boundingBox obstacles = Inl e \<longrightarrow>
        decomposeWalkableArea earcut boundingBox obstacles = Inl e)"
proof -
  have p1: "isl (validateInput boundingBox obstacles) \<longleftrightarrow>
      length boundingBox \<noteq> 4 \<or> (\<exists>ob\<in>set obstacles. length ob < 3) \<or>
      (\<exists>ob\<in>set obstacles. \<not> isConvex ob)"
    by (auto simp: validateInput_def checkObstacles_isl)
  have p2: "validateInput boundingBox obstacles = Inl BoundingBoxNot4Points \<longleftrightarrow> length boundingBox \<noteq> 4"
    by (simp add: validateInput_def checkObstacles_not_other)
  have p4: "\<forall>e. validateInput boundingBox obstacles = Inl e \<longrightarrow>
        decomposeWalkableArea earcut boundingBox obstacles = Inl e"
    by (simp add: decomposeWalkableArea_def)
  have p3: "1 \<le> n \<and> n \<le> length obstacles \<and>
        (validateInput boundingBox obstacles = Inl (ObstacleTooFewPoints n)
           \<longleftrightarrow> length (obstacles ! (n - 1)) < 3) \<and>
        (validateInput boundingBox obstacles = Inl (ObstacleNotConvex n)
           \<longleftrightarrow> \<not> length (obstacles ! (n - 1)) < 3 \<and> \<not> isConvex (obstacles ! (n - 1))) \<and>
        (\<forall>j<n - 1. \<not> length (obstacles ! j) < 3 \<and> isConvex (obstacles ! j))"
    if h: "validateInput boundingBox obstacles = Inl (ObstacleTooFewPoints n) \<or>
        validateInput boundingBox obstacles = Inl (ObstacleNotConvex n)" for n
  proof -
    from h obtain e where e: "checkObstacles 0 obstacles = Inl e"
      "e = ObstacleTooFewPoints n \<or> e = ObstacleNotConvex n"
      and v: "validateInput boundingBox obstacles = Inl e"
      by (auto simp: validateInput_def split: if_splits)
    from checkObstacles_error[OF e(1)] obtain k where k: "k < length obstacles"
      "\<forall>j<k. \<not> length (obstacles ! j) < 3 \<and> isConvex (obstacles ! j)"
      "(length (obstacles ! k) < 3 \<and> e = ObstacleTooFewPoints (0 + k + 1)) \<or>
       (\<not> length (obstacles ! k) < 3 \<and> \<not> isConvex (obstacles ! k) \<and> e = ObstacleNotConvex (0 + k + 1))"
      by blast
    from k(3) e(2) have n: "n = k + 1"
      by auto
    show ?thesis
      using k n v by auto
  qed
  have q1: "validateInput boundingBox obstacles =
        Inl (if length (obstacles ! k) < 3 then ObstacleTooFewPoints (k + 1)
             else ObstacleNotConvex (k + 1))"
    if "k < length obstacles" "length boundingBox = 4"
      "\<forall>j<k. \<not> length (obstacles ! j) < 3 \<and> isConvex (obstacles ! j)"
      "length (obstacles ! k) < 3 \<or> \<not> isConvex (obstacles ! k)" for k
    using checkObstacles_first[OF that(1,3,4), of 0] that(2) by (simp add: validateInput_def)
  have q2: "validateInput boundingBox obstacles = Inr ()"
    if "length boundingBox = 4" "\<forall>ob\<in>set obstacles. \<not> length ob < 3 \<and> isConvex ob"
  proof -
    have "\<not> isl (validateInput boundingBox obstacles)"
      using that by (auto simp: validateInput_def checkObstacles_isl)
    then show ?thesis
      by (cases "validateInput boundingBox obstacles") simp_all
  qed
  have q3: "validateInput boundingBox obstacles \<noteq> Inl TriangulationFailure"
    by (simp add: validateInput_def checkObstacles_not_other)
  show ?thesis
    using p1 p2 p3 p4 q1 q2 q3 by blast
qed

text \<open>Claim C3 at a valid box whose second obstacle is a concave arrowhead, at the same
  box with a second obstacle of two points, at a box of three points, and at the box
  with the first obstacle alone.\<close>

theorem C3_witness:
  "validateInput [pt 0 0, pt 9 0, pt 9 9, pt 0 9]
     [[pt 1 1, pt 2 1, pt 1 2], [pt 0 0, pt 4 1, pt 0 2, pt 1 1]] = Inl (ObstacleNotConvex 2) \<and>
   decomposeWalkableArea (\<lambda>vs hs d. Some []) [pt 0 0, pt 9 0, pt 9 9, pt 0 9]
     [[pt 1 1, pt 2 1, pt 1 2], [pt 0 0, pt 4 1, pt 0 2, pt 1 1]] = Inl (ObstacleNotConvex 2) \<and>
   validateInput [pt 0 0, pt 9 0, pt 9 9, pt 0 9] [[pt 1 1, pt 2 1, pt 1 2], [pt 5 5, pt 6 5]]
     = Inl (ObstacleTooFewPoints 2) \<and>
   decomposeWalkableArea (\<lambda>vs hs d. Some []) [pt 0 0, pt 9 0, pt 9 9] [] = Inl BoundingBoxNot4Points \<and>
   validateInput [pt 0 0, pt 9 0, pt 9 9, pt 0 9] [[pt 1 1, pt 2 1, pt 1 2]] = Inr ()"
proof -
  let ?bb = "[pt 0 0, pt 9 0, pt 9 9, pt 0 9]"
  let ?tri = "[pt 1 1, pt 2 1, pt 1 2]"
  let ?arrow = "[pt 0 0, pt 4 1, pt 0 2, pt 1 1]"
  let ?two = "[pt 5 5, pt 6 5]"
  let ?e = "\<lambda>vs hs d. Some []"
  have c1: "isConvex ?tri"
    by (simp add: convex_eval)
  have c2: "\<not> isConvex ?arrow"
    by (simp add: convex_eval)
  have a: "validateInput ?bb [?tri, ?arrow] = Inl (ObstacleNotConvex 2)"
    using C3_validateInput[of ?bb "[?tri, ?arrow]" ?e, THEN conjunct2, THEN conjunct2, THEN conjunct1,
        rule_format, of 1] c1 c2
    by simp
  have b: "decomposeWalkableArea ?e ?bb [?tri, ?arrow] = Inl (ObstacleNotConvex 2)"
    using C3_validateInput[of ?bb "[?tri, ?arrow]" ?e] a by blast
  have c: "validateInput ?bb [?tri, ?two] = Inl (ObstacleTooFewPoints 2)"
    using C3_validateInput[of ?bb "[?tri, ?two]" ?e, THEN conjunct2, THEN conjunct2, THEN conjunct1,
        rule_format, of 1] c1
    by simp
  have d: "decomposeWalkableArea ?e [pt 0 0, pt 9 0, pt 9 9] [] = Inl BoundingBoxNot4Points"
    using C3_validateInput[of "[pt 0 0, pt 9 0, pt 9 9]" "[]" ?e] by simp
  have e: "validateInput ?bb [?tri] = Inr ()"
    using C3_validateInput[of ?bb "[?tri]" ?e] c1 by simp
  show ?thesis
    using a b c d e by simp
qed

section \<open>Triangulation input\<close>

lemma pushPoints_eq: "pushPoints vs poly = vs @ concat (map (\<lambda>p. [x p, y p]) poly)"
  by (induction poly arbitrary: vs) simp_all

lemma addObstacles_eq:
  "addObstacles obs (vs, hs, off) =
     (vs @ concat (map (\<lambda>p. [x p, y p]) (concat obs)),
      hs @ map (\<lambda>k. off + sum_list (map length (take k obs))) [0..<length obs],
      off + sum_list (map length obs))"
proof (induction obs arbitrary: vs hs off)
  case Nil
  then show ?case by simp
next
  case (Cons ob obs)
  have "map (\<lambda>k. off + sum_list (map length (take k (ob # obs)))) [0..<length (ob # obs)]
        = off # map (\<lambda>k. off + length ob + sum_list (map length (take k obs))) [0..<length obs]"
    by (simp add: map_upt_Suc del: upt_Suc)
  then show ?case
    by (simp add: Cons.IH pushPoints_eq add.assoc)
qed

text \<open>Claim C8. The vertex buffer is the bounding box's points followed by every
  obstacle's points, in order, as interleaved \<open>x, y\<close>; there is one hole index per
  obstacle, and the \<open>k\<close>-th is the number of bounding-box points (4 for a valid box) plus
  the number of points of all earlier obstacles: a vertex count, not a buffer offset.\<close>

theorem C8_prepareEarcutInput:
  "vertices (prepareEarcutInput boundingBox obstacles) =
     concat (map (\<lambda>p. [x p, y p]) (boundingBox @ concat obstacles)) \<and>
   length (holes (prepareEarcutInput boundingBox obstacles)) = length obstacles \<and>
   (\<forall>k<length obstacles.
      holes (prepareEarcutInput boundingBox obstacles) ! k =
        length boundingBox + sum_list (map length (take k obstacles))) \<and>
   (length boundingBox = 4 \<longrightarrow>
      (\<forall>k<length obstacles.
         holes (prepareEarcutInput boundingBox obstacles) ! k =
           4 + sum_list (map length (take k obstacles))))"
  by (simp add: prepareEarcutInput_def addObstacles_eq pushPoints_eq)

text \<open>Claim C8 at a 4-point box with obstacles of 3, 4 and 3 points: the hole indices
  are 4, 7 and 11.\<close>

theorem C8_witness:
  "vertices (prepareEarcutInput [pt 0 0, pt 9 0, pt 9 9, pt 0 9]
      [[pt 1 1, pt 2 1, pt 1 2], [pt 5 5, pt 6 5, pt 6 6, pt 5 6], [pt 7 1, pt 8 1, pt 7 2]]) =
     map (\<lambda>n. Fin (of_int n))
       [0, 0, 9, 0, 9, 9, 0, 9, 1, 1, 2, 1, 1, 2, 5, 5, 6, 5, 6, 6, 5, 6, 7, 1, 8, 1, 7, 2] \<and>
   holes (prepareEarcutInput [pt 0 0, pt 9 0, pt 9 9, pt 0 9]
      [[pt 1 1, pt 2 1, pt 1 2], [pt 5 5, pt 6 5, pt 6 6, pt 5 6], [pt 7 1, pt 8 1, pt 7 2]]) =
     [4, 7, 11]"
proof -
  let ?bb = "[pt 0 0, pt 9 0, pt 9 9, pt 0 9]"
  let ?obs = "[[pt 1 1, pt 2 1, pt 1 2], [pt 5 5, pt 6 5, pt 6 6, pt 5 6], [pt 7 1, pt 8 1, pt 7 2]]"
  have len: "length (holes (prepareEarcutInput ?bb ?obs)) = 3"
    and h: "\<forall>k<3. holes (prepareEarcutInput ?bb ?obs) ! k = 4 + sum_list (map length (take k ?obs))"
    and v: "vertices (prepareEarcutInput ?bb ?obs) = concat (map (\<lambda>p. [x p, y p]) (?bb @ concat ?obs))"
    using C8_prepareEarcutInput[of ?bb ?obs] by simp_all
  have "holes (prepareEarcutInput ?bb ?obs) ! 0 = 4"
    "holes (prepareEarcutInput ?bb ?obs) ! 1 = 7"
    "holes (prepareEarcutInput ?bb ?obs) ! 2 = 11"
    using h by (simp_all add: numeral_2_eq_2)
  then have "holes (prepareEarcutInput ?bb ?obs) = [4, 7, 11]"
    using len by (auto simp: list_eq_iff_nth_eq less_Suc_eq numeral_3_eq_3 numeral_2_eq_2)
  then show ?thesis
    using v by (simp add: pt_def)
qed

section \<open>Adjacency\<close>

lemma edgesMatch_sym: "edgesMatch e1 e2 = edgesMatch e2 e1"
  unfolding edgesMatch_def
  using pointsEqual_sym[of "fst e1" "fst e2"] pointsEqual_sym[of "snd e1" "snd e2"]
    pointsEqual_sym[of "fst e1" "snd e2"] pointsEqual_sym[of "snd e1" "fst e2"]
  by blast

lemma shareEdge_iff:
  "shareEdge t1 t2 \<longleftrightarrow> (\<exists>e1\<in>set (getEdges t1). \<exists>e2\<in>set (getEdges t2). edgesMatch e1 e2)"
  by (simp add: shareEdge_def list_ex_iff)

lemma shareEdge_sym: "shareEdge t1 t2 = shareEdge t2 t1"
  unfolding shareEdge_iff using edgesMatch_sym by blast

lemma fold_upd_apply:
  "fold (\<lambda>i m. m(i \<mapsto> f i)) is m0 k = (if k \<in> set is then Some (f k) else m0 k)"
  by (induction "is" arbitrary: m0) auto

lemma adjacencyMap_apply:
  "adjacencyMap ts i = (if i < length ts then Some (neighborsOf ts i) else None)"
  by (simp add: adjacencyMap_def fold_upd_apply)

lemma neighbor_iff:
  "(\<exists>ns. adjacencyMap ts i = Some ns \<and> j \<in> set ns) \<longleftrightarrow>
   i < length ts \<and> j < length ts \<and> i \<noteq> j \<and> shareEdge (ts ! i) (ts ! j)"
  by (auto simp: adjacencyMap_apply neighborsOf_def)

text \<open>Claim C4. The adjacency map lists \<open>j\<close> under \<open>i\<close> iff it lists \<open>i\<close> under \<open>j\<close>,
  and \<^verbatim>\<open>shareEdge\<close> is symmetric.\<close>

theorem C4_adjacency_symmetric:
  "((\<exists>ns. adjacencyMap ts i = Some ns \<and> j \<in> set ns) \<longleftrightarrow>
    (\<exists>ms. adjacencyMap ts j = Some ms \<and> i \<in> set ms)) \<and>
   shareEdge t1 t2 = shareEdge t2 t1"
  unfolding neighbor_iff using shareEdge_sym by auto

text \<open>Claim C4 at three triangles, the first and the third sharing an edge: from the entry
  \<open>2\<close> under key \<open>0\<close> the theorem gives the entry \<open>0\<close> under key \<open>2\<close>.\<close>

theorem C4_witness:
  "(\<exists>ns. adjacencyMap [[pt 0 0, pt 1 0, pt 0 1], [pt 5 5, pt 6 5, pt 5 6], [pt 1 0, pt 0 0, pt 1 (- 1)]] 2
           = Some ns \<and> 0 \<in> set ns) \<and>
   shareEdge [pt 1 0, pt 0 0, pt 1 (- 1)] [pt 0 0, pt 1 0, pt 0 1]"
proof -
  have "adjacencyMap [[pt 0 0, pt 1 0, pt 0 1], [pt 5 5, pt 6 5, pt 5 6], [pt 1 0, pt 0 0, pt 1 (- 1)]] 0
          = Some [2]"
    by (simp add: adjacencyMap_def neighborsOf_def shareEdge_def poly_eval)
  moreover have "shareEdge [pt 0 0, pt 1 0, pt 0 1] [pt 1 0, pt 0 0, pt 1 (- 1)]"
    by (simp add: shareEdge_def poly_eval)
  ultimately show ?thesis
    using C4_adjacency_symmetric[of
        "[[pt 0 0, pt 1 0, pt 0 1], [pt 5 5, pt 6 5, pt 5 6], [pt 1 0, pt 0 0, pt 1 (- 1)]]" 0 2
        "[pt 0 0, pt 1 0, pt 0 1]" "[pt 1 0, pt 0 0, pt 1 (- 1)]"]
    by simp
qed

section \<open>Polygon fusion\<close>

lemma findSharedEdge_None_iff:
  "findSharedEdge p1 p2 = None \<longleftrightarrow> \<not> shareEdge p1 p2"
  by (auto simp: findSharedEdge_def find_None_iff shareEdge_iff list_ex_iff)

text \<open>Claim C6. \<^verbatim>\<open>mergePolygons\<close> returns \<^verbatim>\<open>null\<close> iff no edge of polygon 1 matches
  an edge of polygon 2, in either direction, under \<^verbatim>\<open>pointsEqual\<close>; that is, iff
  \<^verbatim>\<open>findSharedEdge\<close> finds nothing.\<close>

theorem C6_mergePolygons_null:
  "(mergePolygons poly1 poly2 = None \<longleftrightarrow>
     \<not> (\<exists>e1\<in>set (getEdges poly1). \<exists>e2\<in>set (getEdges poly2). edgesMatch e1 e2)) \<and>
   (mergePolygons poly1 poly2 = None \<longleftrightarrow> findSharedEdge poly1 poly2 = None)"
proof -
  have "mergePolygons poly1 poly2 = None \<longleftrightarrow> findSharedEdge poly1 poly2 = None"
    by (simp add: mergePolygons_def Let_def split: option.splits)
  then show ?thesis
    using findSharedEdge_None_iff[of poly1 poly2] by (simp add: shareEdge_iff)
qed

text \<open>Claim C6 at two triangles far apart and at two triangles with a common edge.\<close>

theorem C6_witness:
  "mergePolygons [pt 0 0, pt 1 0, pt 0 1] [pt 5 5, pt 6 5, pt 5 6] = None \<and>
   mergePolygons [pt 0 0, pt 1 0, pt 0 1] [pt 1 0, pt 0 0, pt 1 (- 1)] \<noteq> None"
proof -
  have "\<not> (\<exists>e1\<in>set (getEdges [pt 0 0, pt 1 0, pt 0 1]).
            \<exists>e2\<in>set (getEdges [pt 5 5, pt 6 5, pt 5 6]). edgesMatch e1 e2)"
    by (simp add: poly_eval)
  moreover have "\<exists>e1\<in>set (getEdges [pt 0 0, pt 1 0, pt 0 1]).
            \<exists>e2\<in>set (getEdges [pt 1 0, pt 0 0, pt 1 (- 1)]). edgesMatch e1 e2"
    by (simp add: poly_eval)
  ultimately show ?thesis
    using C6_mergePolygons_null[of "[pt 0 0, pt 1 0, pt 0 1]" "[pt 5 5, pt 6 5, pt 5 6]"]
      C6_mergePolygons_null[of "[pt 0 0, pt 1 0, pt 0 1]" "[pt 1 0, pt 0 0, pt 1 (- 1)]"]
    by blast
qed

subsection \<open>The splice\<close>

lemma spliceFrom_eq:
  "index < length poly2 \<Longrightarrow>
   spliceFrom poly2 index k =
     (map (\<lambda>t. poly2 ! ((index + t) mod length poly2)) [0..<k], (index + k) mod length poly2)"
proof (induction k arbitrary: index)
  case 0
  then show ?case by simp
next
  case (Suc k)
  from Suc.prems have "0 < length poly2"
    by (cases poly2) simp_all
  then have lt: "(index + 1) mod length poly2 < length poly2"
    by (rule mod_less_divisor)
  have "((index + 1) mod length poly2 + t) mod length poly2 = (index + Suc t) mod length poly2" for t
    by (simp add: mod_add_left_eq)
  with Suc.IH[OF lt] Suc.prems show ?case
    by (simp add: map_upt_Suc del: upt_Suc)
qed

lemma mergeLoop_nomatch:
  "\<forall>p\<in>set ps. \<not> pointsEqual p a \<Longrightarrow> mergeLoop a poly2 ps index = ps"
  by (induction ps) simp_all

lemma mergeLoop_once:
  assumes "i < length ps" "\<forall>k<length ps. pointsEqual (ps ! k) a \<longleftrightarrow> k = i"
  shows "mergeLoop a poly2 ps index =
           take (Suc i) ps @ fst (spliceFrom poly2 index (length poly2 - 2)) @ drop (Suc i) ps"
  using assms
proof (induction ps arbitrary: i)
  case Nil
  then show ?case by simp
next
  case (Cons p ps)
  show ?case
  proof (cases i)
    case 0
    with Cons.prems have hd: "pointsEqual p a"
      by auto
    have "\<forall>q\<in>set ps. \<not> pointsEqual q a"
    proof
      fix q assume "q \<in> set ps"
      then obtain k where "k < length ps" "ps ! k = q"
        by (auto simp: in_set_conv_nth)
      with Cons.prems(2) 0 show "\<not> pointsEqual q a"
        by (metis Suc_less_eq length_Cons nat.distinct(1) nth_Cons_Suc)
    qed
    then show ?thesis
      using hd 0 by (simp add: mergeLoop_nomatch split: prod.splits)
  next
    case (Suc i')
    with Cons.prems have nohd: "\<not> pointsEqual p a"
      by (metis length_Cons nat.distinct(1) nth_Cons_0 zero_less_Suc)
    have i': "i' < length ps"
      using Cons.prems(1) Suc by simp
    have "\<forall>k<length ps. pointsEqual (ps ! k) a \<longleftrightarrow> k = i'"
      using Cons.prems(2) Suc by (metis Suc_less_eq length_Cons nat.inject nth_Cons_Suc)
    from Cons.IH[OF i' this] show ?thesis
      using nohd Suc by simp
  qed
qed

lemma findIndex_first:
  "j < length ps \<Longrightarrow> P (ps ! j) \<Longrightarrow> \<forall>k<j. \<not> P (ps ! k) \<Longrightarrow> findIndex P ps = int j"
proof (induction ps arbitrary: j)
  case Nil
  then show ?case by simp
next
  case (Cons p ps)
  show ?case
  proof (cases j)
    case 0
    with Cons.prems show ?thesis by simp
  next
    case (Suc j')
    with Cons.prems have "\<not> P p" by auto
    moreover have "findIndex P ps = int j'"
      using Cons.prems Suc by (intro Cons.IH) auto
    ultimately show ?thesis
      using Suc by simp
  qed
qed

lemma findIndex_unique:
  assumes "j < length ps" "\<forall>k<length ps. P (ps ! k) \<longleftrightarrow> k = j"
  shows "findIndex P ps = int j"
  using assms by (intro findIndex_first) auto

lemma mod_twice:
  fixes m n :: nat
  shows "m < 2 * n \<Longrightarrow> m mod n = (if m < n then m else m - n)"
  by (simp add: le_mod_geq)

lemma splice_positions:
  fixes j n t :: nat
  assumes "j < n" "t < n - 2"
  shows "(j + 1 + t) mod n \<noteq> j" and "(j + 1 + t) mod n \<noteq> (j + n - 1) mod n"
    and "(j + 1 + t) mod n < n"
proof -
  have a: "j + 1 + t < 2 * n" and b: "j + n - 1 < 2 * n"
    using assms by simp_all
  have e1: "(j + 1 + t) mod n = (if j + 1 + t < n then j + 1 + t else j + 1 + t - n)"
    by (rule mod_twice[OF a])
  have e2: "(j + n - 1) mod n = (if j + n - 1 < n then j + n - 1 else j + n - 1 - n)"
    by (rule mod_twice[OF b])
  show "(j + 1 + t) mod n \<noteq> j"
    unfolding e1 using assms by (cases "j + 1 + t < n") simp_all
  show "(j + 1 + t) mod n \<noteq> (j + n - 1) mod n"
    unfolding e1 e2 using assms by (cases "j + 1 + t < n"; cases "j + n - 1 < n") simp_all
  from assms(1) have "0 < n"
    by simp
  then show "(j + 1 + t) mod n < n"
    by (rule mod_less_divisor)
qed

lemma rotate_as_map:
  "rotate m ps = map (\<lambda>t. ps ! ((m + t) mod length ps)) [0..<length ps]"
  by (rule nth_equalityI) (simp_all add: nth_rotate)

lemma remaining_vertices:
  assumes n: "2 \<le> length poly2" and j: "j < length poly2"
    and pa: "\<forall>k<length poly2. pointsEqual (poly2 ! k) a \<longleftrightarrow> k = j"
    and pb: "\<forall>k<length poly2. pointsEqual (poly2 ! k) b \<longleftrightarrow> k = (j + length poly2 - 1) mod length poly2"
  shows "filter (\<lambda>q. \<not> pointsEqual q a \<and> \<not> pointsEqual q b) (rotate (j + 1) poly2)
         = map (\<lambda>t. poly2 ! ((j + 1 + t) mod length poly2)) [0..<length poly2 - 2]"
proof -
  define n where "n = length poly2"
  define f where "f = (\<lambda>t. poly2 ! ((j + 1 + t) mod n))"
  define keep where "keep = (\<lambda>q. \<not> pointsEqual q a \<and> \<not> pointsEqual q b)"
  from n obtain m where m: "n = Suc (Suc m)"
    unfolding n_def by (metis Suc_le_D numeral_2_eq_2 Suc_le_mono)
  have jn: "j < n"
    using j by (simp add: n_def)
  have split: "[0..<n] = [0..<m] @ [m, Suc m]"
    by (simp add: m)
  have kept: "keep (f t)" if "t < m" for t
  proof -
    from that have t: "t < n - 2"
      by (simp add: m)
    have "(j + 1 + t) mod n < length poly2" "(j + 1 + t) mod n \<noteq> j"
      "(j + 1 + t) mod n \<noteq> (j + length poly2 - 1) mod length poly2"
      using splice_positions[OF jn t] by (simp_all add: n_def)
    with pa pb show ?thesis
      unfolding keep_def f_def n_def by blast
  qed
  have p1: "(j + 1 + m) mod n = (j + length poly2 - 1) mod length poly2"
    by (simp add: m n_def[symmetric])
  from j have "0 < length poly2"
    by (cases poly2) simp_all
  then have "(j + length poly2 - 1) mod length poly2 < length poly2"
    by (rule mod_less_divisor)
  with pb have "pointsEqual (poly2 ! ((j + length poly2 - 1) mod length poly2)) b"
    by blast
  then have last1: "\<not> keep (f m)"
    unfolding keep_def f_def p1 by simp
  have "(j + 1 + Suc m) mod n = (j + n) mod n"
    by (simp add: m)
  also have "\<dots> = j"
    using jn by simp
  finally have p2: "(j + 1 + Suc m) mod n = j" .
  from pa j have "pointsEqual (poly2 ! j) a"
    by blast
  then have last2: "\<not> keep (f (Suc m))"
    unfolding keep_def f_def p2 by simp
  have "filter keep (map f [0..<m]) = map f [0..<m]"
    using kept by (simp add: filter_map)
  then have "filter keep (map f [0..<n]) = map f [0..<m]"
    using last1 last2 unfolding split by simp
  moreover have "rotate (j + 1) poly2 = map f [0..<n]"
    unfolding f_def n_def by (rule rotate_as_map)
  moreover have "length poly2 - 2 = m"
    using m by (simp add: n_def)
  ultimately show ?thesis
    unfolding keep_def f_def n_def by simp
qed

text \<open>
  The splice when the endpoints are unambiguous. Let \<^verbatim>\<open>findSharedEdge\<close> return the edge
  \<open>(a, b)\<close>, let \<open>a\<close> occur once in polygon 1, at position \<open>i\<close>, and once in polygon 2,
  at position \<open>j\<close>, and let \<open>b\<close> occur in polygon 2 only at the position just before
  \<open>j\<close>. Then \<^verbatim>\<open>mergePolygons\<close> returns polygon 1 up to and including position \<open>i\<close>,
  then the \<open>|poly2| - 2\<close> vertices of polygon 2 that follow position \<open>j\<close> cyclically, then
  the rest of polygon 1. This is the splice of the specification, it has
  \<open>|poly1| + |poly2| - 2\<close> vertices, and no inserted vertex equals \<open>a\<close> or \<open>b\<close>.
\<close>

lemma mergePolygons_unambiguous:
  assumes "findSharedEdge poly1 poly2 = Some (a, b)"
    and "i < length poly1"
    and "\<forall>k<length poly1. pointsEqual (poly1 ! k) a \<longleftrightarrow> k = i"
    and "2 \<le> length poly2" and "j < length poly2"
    and "\<forall>k<length poly2. pointsEqual (poly2 ! k) a \<longleftrightarrow> k = j"
    and "\<forall>k<length poly2. pointsEqual (poly2 ! k) b \<longleftrightarrow>
           k = (j + length poly2 - 1) mod length poly2"
  shows "\<exists>r. mergePolygons poly1 poly2 = Some r \<and>
           r = take (Suc i) poly1 @
               map (\<lambda>t. poly2 ! ((j + 1 + t) mod length poly2)) [0..<length poly2 - 2] @
               drop (Suc i) poly1 \<and>
           mergePolygons_spec poly1 poly2 = Some r \<and>
           length r = length poly1 + length poly2 - 2 \<and>
           (\<forall>t<length poly2 - 2.
              \<not> pointsEqual (poly2 ! ((j + 1 + t) mod length poly2)) a \<and>
              \<not> pointsEqual (poly2 ! ((j + 1 + t) mod length poly2)) b)"
proof -
  define n where "n = length poly2"
  define ins where "ins = map (\<lambda>t. poly2 ! ((j + 1 + t) mod n)) [0..<n - 2]"
  define r where "r = take (Suc i) poly1 @ ins @ drop (Suc i) poly1"
  have npos: "0 < n"
    unfolding n_def using assms(5) by (cases poly2) simp_all
  have f2: "findIndex (\<lambda>p. pointsEqual p a) poly2 = int j"
    by (rule findIndex_unique[OF assms(5,6)])
  have f1: "findIndex (\<lambda>p. pointsEqual p a) poly1 = int i"
    by (rule findIndex_unique[OF assms(2,3)])
  have "(int j + 1) mod int n = int ((j + 1) mod n)"
    by (simp add: zmod_int add.commute)
  then have idx: "nat ((findIndex (\<lambda>p. pointsEqual p a) poly2 + 1) mod int (length poly2)) = (j + 1) mod n"
    by (simp add: f2 n_def)
  have lt: "(j + 1) mod n < length poly2"
    unfolding n_def[symmetric] using npos by (rule mod_less_divisor)
  have "((j + 1) mod n + t) mod n = (j + 1 + t) mod n" for t
    by (simp add: mod_add_left_eq)
  with spliceFrom_eq[OF lt, of "length poly2 - 2"]
  have sp: "fst (spliceFrom poly2 ((j + 1) mod n) (length poly2 - 2)) = ins"
    by (simp add: ins_def n_def)
  have "mergeLoop a poly2 poly1 ((j + 1) mod n) = r"
    unfolding r_def sp[symmetric] by (rule mergeLoop_once[OF assms(2,3)])
  then have code: "mergePolygons poly1 poly2 = Some r"
    by (simp add: mergePolygons_def assms(1) idx)
  have rem: "filter (\<lambda>q. \<not> pointsEqual q a \<and> \<not> pointsEqual q b) (rotate (j + 1) poly2) = ins"
    unfolding ins_def n_def by (rule remaining_vertices[OF assms(4,5,6,7)])
  have spec: "mergePolygons_spec poly1 poly2 = Some r"
    using rem by (simp add: mergePolygons_spec_def assms(1) f1 f2 r_def)
  have len: "length r = length poly1 + length poly2 - 2"
    using assms(2,4) by (simp add: r_def ins_def n_def)
  have dist: "\<not> pointsEqual (poly2 ! ((j + 1 + t) mod length poly2)) a \<and>
              \<not> pointsEqual (poly2 ! ((j + 1 + t) mod length poly2)) b"
    if "t < length poly2 - 2" for t
    using splice_positions[OF assms(5) that] assms(6,7) by blast
  show ?thesis
    using code spec len dist by (simp add: r_def ins_def n_def)
qed

text \<open>Claim C5 does not hold of the code. The triangles \<open>(2, 1)\<close>, \<open>(0, 4)\<close>, \<open>(0, 0)\<close>
  and \<open>(2, 1 + 2^-20)\<close>, \<open>(0, 4)\<close>, \<open>(2, 1)\<close> have the same winding and share the edge
  from \<open>(2, 1)\<close> to \<open>(0, 4)\<close>, which polygon 2 runs through in the opposite direction;
  \<open>(2, 1)\<close> occurs once in polygon 1. The first vertex of polygon 2 lies within the
  tolerance of \<open>(2, 1)\<close>. \<^verbatim>\<open>findSharedEdge\<close> returns the edge \<open>((2, 1), (0, 4))\<close>,
  \<^verbatim>\<open>findIndex\<close> stops at that first vertex instead of the endpoint, and the loop copies
  the one vertex after it, which is polygon 2's copy of the endpoint \<open>(0, 4)\<close>. The
  result \<open>(2, 1)\<close>, \<open>(0, 4)\<close>, \<open>(0, 4)\<close>, \<open>(0, 0)\<close> repeats an endpoint of the shared
  edge, leaves out the vertex \<open>(2, 1 + 2^-20)\<close> of polygon 2, and has the area of
  polygon 1 alone, whereas the polygon with that vertex inserted after \<open>(2, 1)\<close> has the
  area of both. The splice as the specification words it, with points identified by the
  tolerance, inserts nothing here; the code does not return that either.\<close>

theorem C5_splice_repeats_endpoint:
  "0 < area2 [pt 2 1, pt 0 4, pt 0 0] \<and>
   0 < area2 [nudge (pt 2 1) 0 1, pt 0 4, pt 2 1] \<and>
   shareEdge [pt 2 1, pt 0 4, pt 0 0] [nudge (pt 2 1) 0 1, pt 0 4, pt 2 1] \<and>
   findSharedEdge [pt 2 1, pt 0 4, pt 0 0] [nudge (pt 2 1) 0 1, pt 0 4, pt 2 1]
     = Some (pt 2 1, pt 0 4) \<and>
   filter (\<lambda>p. pointsEqual p (pt 2 1)) [pt 2 1, pt 0 4, pt 0 0] = [pt 2 1] \<and>
   mergePolygons [pt 2 1, pt 0 4, pt 0 0] [nudge (pt 2 1) 0 1, pt 0 4, pt 2 1]
     = Some [pt 2 1, pt 0 4, pt 0 4, pt 0 0] \<and>
   mergePolygons_spec [pt 2 1, pt 0 4, pt 0 0] [nudge (pt 2 1) 0 1, pt 0 4, pt 2 1]
     = Some [pt 2 1, pt 0 4, pt 0 0] \<and>
   area2 [pt 2 1, pt 0 4, pt 0 4, pt 0 0] = area2 [pt 2 1, pt 0 4, pt 0 0] \<and>
   area2 [pt 2 1, nudge (pt 2 1) 0 1, pt 0 4, pt 0 0]
     = area2 [pt 2 1, pt 0 4, pt 0 0] + area2 [nudge (pt 2 1) 0 1, pt 0 4, pt 2 1]"
  by (simp add: to_grid shareEdge_def mergePolygons_def mergePolygons_spec_def findSharedEdge_def
      grid_poly_eval area2_def ratOf_grid)

section \<open>Convex merge\<close>

lemma mergeNeighbors_convex:
  "mergeNeighbors ts ns (mp, vis) = (mp', vis') \<Longrightarrow> mp' = mp \<or> isConvex mp'"
proof (induction ns arbitrary: mp vis)
  case Nil
  then show ?case by simp
next
  case (Cons n ns)
  show ?case
  proof (cases "n \<in> vis")
    case True
    with Cons show ?thesis by simp
  next
    case False
    show ?thesis
    proof (cases "mergePolygons mp (ts ! n)")
      case None
      with False Cons show ?thesis by simp
    next
      case (Some cand)
      show ?thesis
      proof (cases "isConvex cand")
        case True
        with False Some Cons.prems
        have "mergeNeighbors ts ns (cand, insert n vis) = (mp', vis')" by simp
        from Cons.IH[OF this] True show ?thesis by auto
      next
        case False
        with \<open>n \<notin> vis\<close> Some Cons show ?thesis by simp
      qed
    qed
  qed
qed

lemma mergeSeeds_convex:
  assumes "p \<in> set (mergeSeeds ts is (vis, res))" "\<forall>i\<in>set is. i < length ts"
  shows "p \<in> set res \<or> p \<in> set ts \<or> isConvex p"
  using assms
proof (induction "is" arbitrary: vis res)
  case Nil
  then show ?case by simp
next
  case (Cons i "is")
  show ?case
  proof (cases "i \<in> vis")
    case True
    with Cons show ?thesis by simp
  next
    case False
    obtain mp' vis' where m:
      "mergeNeighbors ts (case adjacencyMap ts i of None \<Rightarrow> [] | Some ns \<Rightarrow> ns)
         (ts ! i, insert i vis) = (mp', vis')"
      by (cases "mergeNeighbors ts (case adjacencyMap ts i of None \<Rightarrow> [] | Some ns \<Rightarrow> ns)
         (ts ! i, insert i vis)")
    with False Cons.prems(1) have "p \<in> set (mergeSeeds ts is (vis', res @ [mp']))"
      by (simp add: Let_def)
    from Cons.IH[OF this] Cons.prems(2)
    have "p \<in> set (res @ [mp']) \<or> p \<in> set ts \<or> isConvex p" by simp
    moreover have "mp' = ts ! i \<or> isConvex mp'"
      by (rule mergeNeighbors_convex[OF m])
    moreover have "ts ! i \<in> set ts"
      using Cons.prems(2) by simp
    ultimately show ?thesis by auto
  qed
qed

lemma merge_single: "mergeTrianglesToConvexPolygons [t] = [t]"
  by (simp add: mergeTrianglesToConvexPolygons_def adjacencyMap_apply neighborsOf_def)

lemma square_merge:
  "mergePolygons [pt 0 0, pt 1 0, pt 1 1] [pt 0 0, pt 1 1, pt 0 1]
     = Some [pt 0 0, pt 1 0, pt 1 1, pt 0 1]"
  by (simp add: mergePolygons_def findSharedEdge_def poly_eval)

lemma square_convex: "isConvex [pt 0 0, pt 1 0, pt 1 1, pt 0 1]"
  by (simp add: convex_eval)

lemma square_triangles:
  "mergeTrianglesToConvexPolygons [[pt 0 0, pt 1 0, pt 1 1], [pt 0 0, pt 1 1, pt 0 1]]
     = [[pt 0 0, pt 1 0, pt 1 1, pt 0 1]]"
  by (simp add: mergeTrianglesToConvexPolygons_def adjacencyMap_apply neighborsOf_def
      shareEdge_def poly_eval square_merge square_convex)

lemma square_decompose:
  "decomposeWalkableArea (\<lambda>vs hs d. Some [0, 1, 2, 0, 2, 3]) [pt 0 0, pt 1 0, pt 1 1, pt 0 1] []
     = Inr [[pt 0 0, pt 1 0, pt 1 1, pt 0 1]]"
proof -
  have "triangulateWithEarcut (\<lambda>vs hs d. Some [0, 1, 2, 0, 2, 3])
          (vertices (prepareEarcutInput [pt 0 0, pt 1 0, pt 1 1, pt 0 1] []))
          (holes (prepareEarcutInput [pt 0 0, pt 1 0, pt 1 1, pt 0 1] []))
        = Some [[pt 0 0, pt 1 0, pt 1 1], [pt 0 0, pt 1 1, pt 0 1]]"
    by (simp add: triangulateWithEarcut_def prepareEarcutInput_def indexedPoint_def vertexAt_def
        pt_def)
  then show ?thesis
    by (simp add: decomposeWalkableArea_def validateInput_def square_triangles)
qed

text \<open>Claim C1, amended. Every polygon returned by \<^verbatim>\<open>mergeTrianglesToConvexPolygons\<close>
  either passes \<^verbatim>\<open>isConvex\<close> or is one of the input triangles, returned as it was given:
  only a fusion is tested, a seed is never tested. So when every input triangle passes
  \<^verbatim>\<open>isConvex\<close>, every returned polygon does; and every polygon returned by
  \<^verbatim>\<open>decomposeWalkableArea\<close> passes \<^verbatim>\<open>isConvex\<close> or is a triangle of the
  triangulation.\<close>

theorem C1_output_convex_or_seed:
  "(\<forall>p\<in>set (mergeTrianglesToConvexPolygons triangles). isConvex p \<or> p \<in> set triangles) \<and>
   ((\<forall>t\<in>set triangles. isConvex t) \<longrightarrow>
      (\<forall>p\<in>set (mergeTrianglesToConvexPolygons triangles). isConvex p)) \<and>
   (\<forall>polys. decomposeWalkableArea earcut boundingBox obstacles = Inr polys \<longrightarrow>
      (\<exists>ts. triangulateWithEarcut earcut (vertices (prepareEarcutInput boundingBox obstacles))
               (holes (prepareEarcutInput boundingBox obstacles)) = Some ts \<and>
            (\<forall>p\<in>set polys. isConvex p \<or> p \<in> set ts)))"
proof -
  have a: "isConvex p \<or> p \<in> set ts" if "p \<in> set (mergeTrianglesToConvexPolygons ts)" for p ts
    using mergeSeeds_convex[of p ts "[0..<length ts]" "{}" "[]"] that
    by (auto simp: mergeTrianglesToConvexPolygons_def)
  have b: "\<exists>ts. triangulateWithEarcut earcut (vertices (prepareEarcutInput boundingBox obstacles))
               (holes (prepareEarcutInput boundingBox obstacles)) = Some ts \<and>
            (\<forall>p\<in>set polys. isConvex p \<or> p \<in> set ts)"
    if "decomposeWalkableArea earcut boundingBox obstacles = Inr polys" for polys
    using that a by (auto simp: decomposeWalkableArea_def Let_def split: sum.splits option.splits)
  show ?thesis
    using a b by blast
qed

text \<open>Claim C1, amended, at the two triangles of a unit square, which fuse into the
  square, and at the whole pipeline on that square with a triangulator that cuts it
  along the diagonal.\<close>

theorem C1_witness:
  "mergeTrianglesToConvexPolygons [[pt 0 0, pt 1 0, pt 1 1], [pt 0 0, pt 1 1, pt 0 1]]
     = [[pt 0 0, pt 1 0, pt 1 1, pt 0 1]] \<and>
   decomposeWalkableArea (\<lambda>vs hs d. Some [0, 1, 2, 0, 2, 3]) [pt 0 0, pt 1 0, pt 1 1, pt 0 1] []
     = Inr [[pt 0 0, pt 1 0, pt 1 1, pt 0 1]] \<and>
   isConvex [pt 0 0, pt 1 0, pt 1 1, pt 0 1]"
  using C1_output_convex_or_seed[of "[[pt 0 0, pt 1 0, pt 1 1], [pt 0 0, pt 1 1, pt 0 1]]"
      "\<lambda>vs hs d. Some [0, 1, 2, 0, 2, 3]" "[pt 0 0, pt 1 0, pt 1 1, pt 0 1]" "[]"]
    square_decompose
  by (simp add: square_triangles)

lemma sliver_cross0: "cross sliverTriangle 0 = Fin (- (1 / 2 ^ 104))"
  using js_round_exact[of "3 * 2 ^ 51 - 1" "- 104"] js_round_exact[of 1 "- 53"]
    js_round_exact[of 3 "- 53"] js_round_exact[of "- 1" "- 104"]
  by (simp add: sliverTriangle_def cross_def Let_def num_eval)

lemma sliver_cross1: "cross sliverTriangle (Suc 0) = Fin (- (1 / 2 ^ 103))"
  using js_round_exact[of 1 "- 53"]
    js_round_cert(2)[of 1 "3 + (3 / 2 ^ 53 - 1 / 2 ^ 104)" "3 * 2 ^ 51 + 1"]
    js_round_exact[of "- (3 * 2 ^ 51 + 1)" "- 104"]
    js_round_exact[of "3 * 2 ^ 51 - 1" "- 104"]
    js_round_cert(2)[of 0 "1 + 1 / 2 ^ 53" "2 ^ 52"]
    js_round_exact[of "- (3 * 2 ^ 51 - 1)" "- 104"]
    js_round_exact[of "- 1" "- 103"]
  by (simp add: sliverTriangle_def cross_def num_eval round_eval)

lemma sliver_cross2: "cross sliverTriangle 2 = Fin (1 / 2 ^ 51)"
  using js_round_cert(2)[of 0 "1 + 1 / 2 ^ 53" "2 ^ 52"]
    js_round_cert(2)[of 1 "3 + (3 / 2 ^ 53 - 1 / 2 ^ 104)" "3 * 2 ^ 51 + 1"]
    js_round_exact[of "- (3 * 2 ^ 51 + 1)" "- 51"]
    js_round_exact[of 1 "- 51"]
  by (simp add: sliverTriangle_def cross_def num_eval round_eval)

lemma sliver_length: "length sliverTriangle = 3"
  by (simp add: sliverTriangle_def)

lemma sliver_not_convex: "\<not> isConvex sliverTriangle"
  by (simp add: isConvex_def sliver_length upt3 sliver_cross0 sliver_cross1 sliver_cross2
      js_neq_def js_eq_def)

lemma sliver_binary64: "binary64Points sliverTriangle"
  using js_round_exact[of 1 "- 53"] js_round_exact[of "3 * 2 ^ 51 - 1" "- 104"]
  by (simp add: binary64Points_def binary64_def sliverTriangle_def num_eval)

text \<open>Claim C1 as stated fails at a list of one triangle: \<open>(-1, -3)\<close>, \<open>(0, 0)\<close>,
  \<open>(2^-53, 3 * 2^-53 - 2^-104)\<close>, a triangle of positive area with binary64
  coordinates. It is returned unchanged, and \<^verbatim>\<open>isConvex\<close> rejects it: the edge from the
  third point back to the first is rounded, and the three computed cross products are
  \<open>-2^-104\<close>, \<open>-2^-103\<close> and \<open>2^-51\<close>.\<close>

theorem C1_counterexample:
  "length sliverTriangle = 3 \<and> binary64Points sliverTriangle \<and>
   mergeTrianglesToConvexPolygons [sliverTriangle] = [sliverTriangle] \<and>
   \<not> isConvex sliverTriangle"
  by (simp add: sliver_length sliver_binary64 merge_single sliver_not_convex)

section \<open>The walkable area\<close>

text \<open>The program on the square with the small obstacle, step by step.\<close>

lemma grid_box:
  "outerBox = [gridPoint 0 0, gridPoint 4194304 0, gridPoint 4194304 4194304, gridPoint 0 4194304]"
  by (simp add: outerBox_def to_grid)

lemma grid_obstacle:
  "tinyObstacle = [gridPoint 2097152 1048576, gridPoint 2097153 1048576, gridPoint 2097152 1048577]"
  by (simp add: tinyObstacle_def to_grid)

lemma grid_triangles:
  "tinyTriangles =
    [[gridPoint 4194304 0, gridPoint 4194304 4194304, gridPoint 0 4194304],
     [gridPoint 2097152 1048576, gridPoint 0 0, gridPoint 4194304 0],
     [gridPoint 2097152 1048576, gridPoint 0 4194304, gridPoint 0 0],
     [gridPoint 4194304 0, gridPoint 0 4194304, gridPoint 2097153 1048576],
     [gridPoint 2097152 1048577, gridPoint 0 4194304, gridPoint 2097152 1048576],
     [gridPoint 2097153 1048576, gridPoint 2097152 1048576, gridPoint 4194304 0],
     [gridPoint 0 4194304, gridPoint 2097152 1048577, gridPoint 2097153 1048576]]"
  by (simp add: tinyTriangles_def to_grid)

lemma grid_result:
  "tinyResult =
    [[gridPoint 4194304 0, gridPoint 4194304 4194304, gridPoint 0 4194304, gridPoint 2097153 1048576],
     [gridPoint 2097152 1048576, gridPoint 0 0, gridPoint 4194304 0, gridPoint 2097153 1048576],
     [gridPoint 2097152 1048576, gridPoint 0 4194304, gridPoint 0 4194304, gridPoint 0 0],
     [gridPoint 0 4194304, gridPoint 2097152 1048577, gridPoint 2097153 1048576]]"
  by (simp add: tinyResult_def to_grid)

lemma tiny_valid: "validateInput outerBox [tinyObstacle] = Inr ()"
  by (simp add: validateInput_def grid_box grid_obstacle grid_convex_eval upt_rec)

lemma tiny_triangulation:
  "triangulateWithEarcut (\<lambda>vs hs d. Some tinyTiling)
     (vertices (prepareEarcutInput outerBox [tinyObstacle]))
     (holes (prepareEarcutInput outerBox [tinyObstacle])) = Some tinyTriangles"
  by (simp add: triangulateWithEarcut_def prepareEarcutInput_def indexedPoint_def vertexAt_def
      outerBox_def tinyObstacle_def tinyTiling_def tinyTriangles_def pt_def nudge_def ratOf_def)

text \<open>The adjacency lists: the fifth triangle (number 4) is a sliver with two vertices
  within the tolerance of each other, so two of its edges match every edge that ends
  near \<open>(2, 1)\<close> and at \<open>(0, 4)\<close>.\<close>

lemma tiny_neighbors:
  "neighborsOf tinyTriangles 0 = [3]"
  "neighborsOf tinyTriangles 1 = [2, 3, 5]"
  "neighborsOf tinyTriangles 2 = [1, 3, 4, 6]"
  "neighborsOf tinyTriangles 3 = [0, 1, 2, 4, 5, 6]"
  "neighborsOf tinyTriangles 4 = [2, 3, 5, 6]"
  "neighborsOf tinyTriangles 5 = [1, 3, 4, 6]"
  "neighborsOf tinyTriangles 6 = [2, 3, 4, 5]"
  by (simp_all add: neighborsOf_def grid_triangles shareEdge_def grid_poly_eval)

text \<open>The five fusions that the merge loop attempts, in its order, and the convexity test
  of each candidate.\<close>

lemma tiny_merges:
  "mergePolygons [gridPoint 4194304 0, gridPoint 4194304 4194304, gridPoint 0 4194304]
       [gridPoint 4194304 0, gridPoint 0 4194304, gridPoint 2097153 1048576]
     = Some [gridPoint 4194304 0, gridPoint 4194304 4194304, gridPoint 0 4194304, gridPoint 2097153 1048576]"
  "mergePolygons [gridPoint 2097152 1048576, gridPoint 0 0, gridPoint 4194304 0]
       [gridPoint 2097152 1048576, gridPoint 0 4194304, gridPoint 0 0]
     = Some [gridPoint 2097152 1048576, gridPoint 0 4194304, gridPoint 0 0, gridPoint 4194304 0]"
  "mergePolygons [gridPoint 2097152 1048576, gridPoint 0 0, gridPoint 4194304 0]
       [gridPoint 2097153 1048576, gridPoint 2097152 1048576, gridPoint 4194304 0]
     = Some [gridPoint 2097152 1048576, gridPoint 0 0, gridPoint 4194304 0, gridPoint 2097153 1048576]"
  "mergePolygons [gridPoint 2097152 1048576, gridPoint 0 4194304, gridPoint 0 0]
       [gridPoint 2097152 1048577, gridPoint 0 4194304, gridPoint 2097152 1048576]
     = Some [gridPoint 2097152 1048576, gridPoint 0 4194304, gridPoint 0 4194304, gridPoint 0 0]"
  "mergePolygons [gridPoint 2097152 1048576, gridPoint 0 4194304, gridPoint 0 4194304, gridPoint 0 0]
       [gridPoint 0 4194304, gridPoint 2097152 1048577, gridPoint 2097153 1048576]
     = Some [gridPoint 2097152 1048576, gridPoint 2097153 1048576, gridPoint 0 4194304,
             gridPoint 0 4194304, gridPoint 0 0]"
  by (simp_all add: mergePolygons_def findSharedEdge_def grid_poly_eval)

lemma tiny_convex:
  "isConvex [gridPoint 4194304 0, gridPoint 4194304 4194304, gridPoint 0 4194304, gridPoint 2097153 1048576]"
  "\<not> isConvex [gridPoint 2097152 1048576, gridPoint 0 4194304, gridPoint 0 0, gridPoint 4194304 0]"
  "isConvex [gridPoint 2097152 1048576, gridPoint 0 0, gridPoint 4194304 0, gridPoint 2097153 1048576]"
  "isConvex [gridPoint 2097152 1048576, gridPoint 0 4194304, gridPoint 0 4194304, gridPoint 0 0]"
  "\<not> isConvex [gridPoint 2097152 1048576, gridPoint 2097153 1048576, gridPoint 0 4194304,
             gridPoint 0 4194304, gridPoint 0 0]"
  by (simp_all add: grid_convex_eval upt_rec)

lemma tiny_merged: "mergeTrianglesToConvexPolygons tinyTriangles = tinyResult"
proof -
  have len: "length tinyTriangles = 7"
    by (simp add: tinyTriangles_def)
  have nth: "tinyTriangles ! 0 = [gridPoint 4194304 0, gridPoint 4194304 4194304, gridPoint 0 4194304]"
    "tinyTriangles ! 1 = [gridPoint 2097152 1048576, gridPoint 0 0, gridPoint 4194304 0]"
    "tinyTriangles ! 2 = [gridPoint 2097152 1048576, gridPoint 0 4194304, gridPoint 0 0]"
    "tinyTriangles ! 3 = [gridPoint 4194304 0, gridPoint 0 4194304, gridPoint 2097153 1048576]"
    "tinyTriangles ! 4 = [gridPoint 2097152 1048577, gridPoint 0 4194304, gridPoint 2097152 1048576]"
    "tinyTriangles ! 5 = [gridPoint 2097153 1048576, gridPoint 2097152 1048576, gridPoint 4194304 0]"
    "tinyTriangles ! 6 = [gridPoint 0 4194304, gridPoint 2097152 1048577, gridPoint 2097153 1048576]"
    by (simp_all add: grid_triangles)
  have upt7: "[0..<7] = [0, 1, 2, 3, 4, 5, 6]"
    by (simp add: upt_rec)
  show ?thesis
    using nth tiny_neighbors tiny_merges tiny_convex
    by (simp add: mergeTrianglesToConvexPolygons_def len upt7 adjacencyMap_apply grid_result)
qed

lemma tiny_decompose:
  "decomposeWalkableArea (\<lambda>vs hs d. Some tinyTiling) outerBox [tinyObstacle] = Inr tinyResult"
  by (simp add: decomposeWalkableArea_def tiny_valid tiny_triangulation tiny_merged)

text \<open>The areas, doubled: of the box, of the obstacle, of the seven triangles and of the
  four returned polygons.\<close>

lemma tiny_areas:
  "area2 outerBox = 32" "area2 tinyObstacle = 1 / 2 ^ 40"
  "map area2 tinyTriangles = [16, 4, 8, 4 - 1 / 2 ^ 18, 1 / 2 ^ 19, 1 / 2 ^ 20, 1 / 2 ^ 20 - 1 / 2 ^ 40]"
  "map area2 tinyResult = [20 - 1 / 2 ^ 18, 4 + 1 / 2 ^ 20, 8, 1 / 2 ^ 20 - 1 / 2 ^ 40]"
  by (simp_all add: grid_box grid_obstacle grid_triangles grid_result area_eval)

lemma lost_area: "area2 (tinyTriangles ! 4) = 1 / 2 ^ 19"
  by (simp add: grid_triangles area_eval)

text \<open>The seven triangles satisfy the contract of the triangulation engine.\<close>

lemma tiny_contract: "tilesRegion outerBox [tinyObstacle] tinyTriangles"
  unfolding tilesRegion_def
proof (intro conjI)
  show "sum_list (map area2 tinyTriangles) = area2 outerBox - sum_list (map area2 [tinyObstacle])"
    by (simp add: tiny_areas)
  show "pairwiseApart tinyTriangles"
    by (simp add: grid_triangles apart_def separates_def getEdges_def upt_rec orient_grid)
  show "list_all (\<lambda>P. 0 < area2 P \<and> list_all (insideConvex outerBox) P \<and> list_all (apart P) [tinyObstacle])
     tinyTriangles"
    by (simp add: grid_triangles grid_box grid_obstacle apart_def separates_def insideConvex_def
        area_eval orient_grid)
qed

lemma result_not_tiling: "\<not> tilesRegion outerBox [tinyObstacle] tinyResult"
  by (simp add: tilesRegion_def tiny_areas)

lemma gap_in_box: "strictlyInside outerBox gapPoint"
  by (simp add: grid_box gapPoint_def strictlyInside_def point_eval)

lemma gap_in_lost: "strictlyInside (tinyTriangles ! 4) gapPoint"
  by (simp add: grid_triangles gapPoint_def strictlyInside_def point_eval)

lemma gap_off_obstacle: "outsideHull tinyObstacle gapPoint"
  by (simp add: grid_obstacle gapPoint_def outsideHull_def point_eval)

lemma gap_off_result: "list_all (\<lambda>P. outsideHull P gapPoint) tinyResult"
  by (simp add: grid_result gapPoint_def outsideHull_def point_eval)

text \<open>Claim C2 does not hold of the code. The input is the square \<open>(0, 0)\<close>, \<open>(4, 0)\<close>,
  \<open>(4, 4)\<close>, \<open>(0, 4)\<close> with one obstacle of the same winding, the triangle \<open>(2, 1)\<close>,
  \<open>(2 + 2^-20, 1)\<close>, \<open>(2, 1 + 2^-20)\<close>; \<^verbatim>\<open>validateInput\<close> accepts it. The triangulator
  returns seven triangles that tile the square minus the obstacle, as its contract
  asks. \<^verbatim>\<open>decomposeWalkableArea\<close> returns four polygons that do not tile that region.
  The triangle \<open>(2, 1 + 2^-20)\<close>, \<open>(0, 4)\<close>, \<open>(2, 1)\<close> is marked visited when it is fused
  into the third polygon, but the fusion leaves its vertex out and repeats \<open>(0, 4)\<close>:
  the areas of the returned polygons fall short of the area of the region by the area of
  that triangle, and the point \<open>(1, 5/2 + 2^-22)\<close>, which is strictly inside the box and
  inside that triangle and outside the obstacle, is outside the convex hull of every
  returned polygon. The walkable area has a gap.\<close>

theorem C2_walkable_area_gap:
  "validateInput outerBox [tinyObstacle] = Inr () \<and>
   triangulateWithEarcut (\<lambda>vs hs d. Some tinyTiling)
     (vertices (prepareEarcutInput outerBox [tinyObstacle]))
     (holes (prepareEarcutInput outerBox [tinyObstacle])) = Some tinyTriangles \<and>
   tilesRegion outerBox [tinyObstacle] tinyTriangles \<and>
   decomposeWalkableArea (\<lambda>vs hs d. Some tinyTiling) outerBox [tinyObstacle] = Inr tinyResult \<and>
   \<not> tilesRegion outerBox [tinyObstacle] tinyResult \<and>
   sum_list (map area2 tinyResult) = area2 outerBox - area2 tinyObstacle - area2 (tinyTriangles ! 4) \<and>
   0 < area2 (tinyTriangles ! 4) \<and>
   strictlyInside outerBox gapPoint \<and> outsideHull tinyObstacle gapPoint \<and>
   strictlyInside (tinyTriangles ! 4) gapPoint \<and>
   list_all (\<lambda>P. outsideHull P gapPoint) tinyResult"
  by (simp add: tiny_valid tiny_triangulation tiny_contract tiny_decompose result_not_tiling
      tiny_areas lost_area gap_in_box gap_off_obstacle gap_in_lost gap_off_result)

end
